theory Spec2Isabelle
  imports Complex_Main "HOL-Library.Product_Lexorder" "HOL-Library.Multiset" "HOL-Library.Log_Nat"
begin

section \<open>Python's \<open>Decimal\<close> in the default context\<close>

text \<open>
  The routers compute money with \<open>decimal.Decimal\<close> under the default context:
  28 significant digits, rounding half to even. A \<open>Decimal\<close> is a signed
  coefficient and an exponent; its value is \<open>coefficient * 10 ^ exponent\<close>.
  The constructor is exact; every arithmetic operation computes the exact result and
  then rounds it to the context's precision. The exponent limits of the context
  (\<open>Emax = 999999\<close>) are out of reach of the amounts handled here and are not modelled,
  and neither is the sign of a zero.
\<close>

datatype decimal = Dec (coefficient: int) (exponent: int)

definition dval :: "decimal \<Rightarrow> rat" where
  "dval d = (if 0 \<le> exponent d then of_int (coefficient d * 10 ^ nat (exponent d))
             else of_int (coefficient d) / of_int (10 ^ nat (- exponent d)))"

definition prec :: nat where
  "prec = 28"

text \<open>The number of decimal digits of a non-negative coefficient.\<close>

function ndigits :: "int \<Rightarrow> nat" where
  "ndigits n = (if n < 10 then 1 else Suc (ndigits (n div 10)))"
  by pat_completeness auto
termination
  by (relation "measure nat") auto

declare ndigits.simps [simp del]

definition round_half_even :: "int \<Rightarrow> nat \<Rightarrow> int" where
  "round_half_even c k =
     (let p = 10 ^ k; a = \<bar>c\<bar>; q = a div p; r = a mod p;
          q' = (if p < 2 * r \<or> (2 * r = p \<and> odd q) then q + 1 else q)
      in sgn c * q')"

definition ctx_round :: "decimal \<Rightarrow> decimal" where
  "ctx_round d =
     (let n = ndigits \<bar>coefficient d\<bar> in
      if n \<le> prec then d
      else (let k = n - prec; c' = round_half_even (coefficient d) k in
            if \<bar>c'\<bar> = 10 ^ prec then Dec (c' div 10) (exponent d + int k + 1)
            else Dec c' (exponent d + int k)))"

definition exact_add :: "decimal \<Rightarrow> decimal \<Rightarrow> decimal" where
  "exact_add a b =
     (let e = min (exponent a) (exponent b)
      in Dec (coefficient a * 10 ^ nat (exponent a - e) + coefficient b * 10 ^ nat (exponent b - e)) e)"

definition exact_mul :: "decimal \<Rightarrow> decimal \<Rightarrow> decimal" where
  "exact_mul a b = Dec (coefficient a * coefficient b) (exponent a + exponent b)"

definition dneg :: "decimal \<Rightarrow> decimal" where
  "dneg a = Dec (- coefficient a) (exponent a)"

definition dadd :: "decimal \<Rightarrow> decimal \<Rightarrow> decimal" where
  "dadd a b = ctx_round (exact_add a b)"

definition dsub :: "decimal \<Rightarrow> decimal \<Rightarrow> decimal" where
  "dsub a b = ctx_round (exact_add a (dneg b))"

definition dmul :: "decimal \<Rightarrow> decimal \<Rightarrow> decimal" where
  "dmul a b = ctx_round (exact_mul a b)"

text \<open>\<open>Decimal(n)\<close> for a Python \<open>int\<close>, and the literal \<open>Decimal('0.0')\<close>.\<close>

definition Decimal_int :: "int \<Rightarrow> decimal" where
  "Decimal_int n = Dec n 0"

definition Decimal_0_0 :: decimal where
  "Decimal_0_0 = Dec 0 (- 1)"

text \<open>
  A Python \<open>float\<close> is a binary fraction \<open>n / 2 ^ k\<close>; \<open>Decimal(x)\<close> of a float converts
  it exactly, to \<open>n * 5 ^ k\<close> with exponent \<open>- k\<close>.
\<close>

datatype pyfloat = Float int nat

definition Decimal_float :: "pyfloat \<Rightarrow> decimal" where
  "Decimal_float x = (case x of Float n k \<Rightarrow> Dec (n * 5 ^ k) (- int k))"

text \<open>Truthiness of a \<open>Decimal\<close>: zero is false.\<close>

definition dec_or :: "decimal option \<Rightarrow> decimal \<Rightarrow> decimal" where
  "dec_or x d = (case x of None \<Rightarrow> d | Some v \<Rightarrow> if coefficient v = 0 then d else v)"

definition int_or :: "int option \<Rightarrow> int \<Rightarrow> int" where
  "int_or x d = (case x of None \<Rightarrow> d | Some v \<Rightarrow> if v = 0 then d else v)"

text \<open>
  \<open>float(d)\<close> of a \<open>Decimal\<close> is the double nearest to the value of \<open>d\<close>, a tie going
  to the even significand, and an infinity beyond the largest double. A finite double
  is a significand below \<open>2 ^ 53\<close> times a power of two between \<open>2 ^ - 1074\<close> and
  \<open>2 ^ 971\<close>; it is held as a \<open>pyfloat\<close>, whose value is \<open>fval\<close>. \<open>rint\<close> rounds a
  rational to the nearest integer, half to even; \<open>floor_log2\<close> is the exponent of the
  leading bit of a positive rational. What becomes of an infinite float when the
  response is rendered is not modelled.
\<close>

datatype float_ext = Finite pyfloat | Infinity bool

definition fval :: "pyfloat \<Rightarrow> rat" where
  "fval x = (case x of Float n k \<Rightarrow> of_int n / 2 ^ k)"

definition rint :: "rat \<Rightarrow> int" where
  "rint q = (let n = \<lfloor>q\<rfloor>; r = q - of_int n
             in if r < 1 / 2 \<or> (r = 1 / 2 \<and> even n) then n else n + 1)"

definition floor_log2 :: "rat \<Rightarrow> int" where
  "floor_log2 q =
     (let (a, b) = quotient_of q; k = bitlen a - bitlen b
      in if power_int 2 k \<le> q then k else k - 1)"

definition nearest_double :: "rat \<Rightarrow> float_ext" where
  "nearest_double q =
     (let a = \<bar>q\<bar>;
          e0 = max (floor_log2 a - 52) (- 1074);
          m0 = rint (a / power_int 2 e0);
          m = (if m0 = 2 ^ 53 then 2 ^ 52 else m0);
          e = (if m0 = 2 ^ 53 then e0 + 1 else e0);
          n = (if q < 0 then - m else m)
      in if q = 0 \<or> m0 = 0 then Finite (Float 0 0)
         else if 971 < e then Infinity (q < 0)
         else if 0 \<le> e then Finite (Float (n * 2 ^ nat e) 0)
         else Finite (Float n (nat (- e))))"

definition float_Decimal :: "decimal \<Rightarrow> float_ext" where
  "float_Decimal d = nearest_double (dval d)"

section \<open>Shared types of the routers\<close>

text \<open>
  A timestamp, in seconds; \<open>CAST(t AS DATE)\<close> is its day. The current time
  (\<open>GETDATE()\<close>) is a parameter \<open>now\<close> of every operation that reads it.
\<close>

type_synonym datetime = nat

definition date_of :: "datetime \<Rightarrow> nat" where
  "date_of t = t div 86400"

datatype http_error = HTTPException (status_code: nat) (detail: string)

text \<open>
  The user that the authentication service resolves from the token: \<open>current_user\<close>,
  read with \<open>.get("username")\<close> and \<open>.get("userRole")\<close>, so either may be missing.
\<close>

record user =
  username :: "string option"
  userRole :: "string option"
  access_token :: string

definition role_in :: "user \<Rightarrow> string list \<Rightarrow> bool" where
  "role_in u allowed_roles = (case userRole u of None \<Rightarrow> False | Some r \<Rightarrow> r \<in> set allowed_roles)"

text \<open>
  The addon payload of a line item: a JSON object, held as the list of its entries.
\<close>

type_synonym addons = "(string \<times> string) list"

section \<open>The order aggregator\<close>

text \<open>
  The exceptions that the aggregation can raise.
\<close>

datatype py_exception = AttributeError | TypeError | ValidationError | JSONDecodeError | KeyError

text \<open>
  The addon column holds JSON text, which the source reads with \<open>json.loads\<close> and
  hands to the field \<open>addons: Optional[dict]\<close> of the response model. The model holds
  a text as what \<open>json.loads\<close> makes of it: the empty text, a text that decodes to a
  value, or a text on which \<open>json.loads\<close> raises. A decoded value is an object, null,
  or any other value, which the field refuses.
\<close>

datatype py_value = PyDict addons | PyNone | PyOther

datatype addons_text = Blank | Text py_value | Malformed

definition json_loads :: "addons_text \<Rightarrow> py_exception + py_value" where
  "json_loads t = (case t of Text v \<Rightarrow> Inr v | _ \<Rightarrow> Inl JSONDecodeError)"

text \<open>
  A fetched row of the \<open>Sales LEFT JOIN SaleItems\<close> queries, as the cursor yields it:
  the order key, and the order-level and item-level columns, each of which may be
  null. The item-level columns are all null on the row of an order without items.
\<close>

record row =
  SaleID :: int
  OrderType :: "string option"
  PaymentMethod :: "string option"
  CreatedAt :: "datetime option"
  CashierName :: "string option"
  TotalDiscountAmount :: "decimal option"
  Status :: "string option"
  GCashReferenceNumber :: "string option"
  SaleItemID :: "int option"
  ItemName :: "string option"
  Quantity :: "int option"
  UnitPrice :: "decimal option"
  Category :: "string option"
  Addons :: "addons_text option"

text \<open>
  \<open>ProcessingSaleItem\<close> and \<open>ProcessingOrder\<close>, the response models, with the
  validation that their constructors run: a \<open>str\<close> field refuses \<open>None\<close>, the field
  \<open>addons: Optional[dict]\<close> takes an object or \<open>None\<close>. The order's \<open>id'\<close> holds the
  sale id that the source renders as \<open>SO-<id>\<close>, and \<open>date\<close> the timestamp that it
  formats.
\<close>

record ProcessingSaleItem =
  name :: string
  quantity :: int
  price :: float_ext
  category :: string
  addons :: "addons option"

record ProcessingOrder =
  id' :: int
  date :: datetime
  items :: int
  total' :: float_ext
  status :: string
  orderType :: string
  paymentMethod :: string
  cashierName :: string
  gcashReferenceNumber :: "string option"
  orderItems :: "ProcessingSaleItem list"

definition ProcessingSaleItem_init ::
  "string option \<Rightarrow> int \<Rightarrow> float_ext \<Rightarrow> string option \<Rightarrow> py_value \<Rightarrow> py_exception + ProcessingSaleItem" where
  "ProcessingSaleItem_init n q p c a =
     (case n of None \<Rightarrow> Inl ValidationError | Some n' \<Rightarrow>
      case c of None \<Rightarrow> Inl ValidationError | Some c' \<Rightarrow>
      case a of
        PyOther \<Rightarrow> Inl ValidationError
      | PyNone \<Rightarrow> Inr \<lparr> name = n', quantity = q, price = p, category = c', addons = None \<rparr>
      | PyDict d \<Rightarrow> Inr \<lparr> name = n', quantity = q, price = p, category = c', addons = Some d \<rparr>)"

text \<open>The accumulator kept in \<open>orders_dict\<close> for one sale id, with the values as the row has them.\<close>

record order_data =
  od_date :: datetime
  od_status :: "string option"
  od_orderType :: "string option"
  od_paymentMethod :: "string option"
  od_cashierName :: "string option"
  od_GCashReferenceNumber :: "string option"
  od_items :: int
  od_orderItems :: "ProcessingSaleItem list"
  od_totalDiscount :: "decimal option"

definition ProcessingOrder_init :: "int \<Rightarrow> order_data \<Rightarrow> float_ext \<Rightarrow> py_exception + ProcessingOrder" where
  "ProcessingOrder_init sale_id ord t =
     (case od_status ord of None \<Rightarrow> Inl ValidationError | Some st \<Rightarrow>
      case od_orderType ord of None \<Rightarrow> Inl ValidationError | Some ot \<Rightarrow>
      case od_paymentMethod ord of None \<Rightarrow> Inl ValidationError | Some pm \<Rightarrow>
      case od_cashierName ord of None \<Rightarrow> Inl ValidationError | Some cn \<Rightarrow>
        Inr \<lparr> id' = sale_id, date = od_date ord, items = od_items ord, total' = t,
              status = st, orderType = ot, paymentMethod = pm, cashierName = cn,
              gcashReferenceNumber = od_GCashReferenceNumber ord,
              orderItems = od_orderItems ord \<rparr>)"

text \<open>
  \<open>orders_dict\<close> is a Python dict, which iterates in insertion order: an association
  list with distinct keys, new keys appended. \<open>item_subtotals\<close> is only looked up.
\<close>

type_synonym orders_dict = "(int \<times> order_data) list"
type_synonym item_subtotals = "int \<Rightarrow> decimal option"

definition has_key :: "orders_dict \<Rightarrow> int \<Rightarrow> bool" where
  "has_key d k = (k \<in> fst ` set d)"

definition update_key :: "int \<Rightarrow> (order_data \<Rightarrow> order_data) \<Rightarrow> orders_dict \<Rightarrow> orders_dict" where
  "update_key k f d = map (\<lambda>(k', v). if k' = k then (k', f v) else (k', v)) d"

text \<open>
  The new entry of \<open>orders_dict\<close>; \<open>row.CreatedAt.strftime\<close> raises on a null
  timestamp. \<open>get_processing_orders\<close> does not select the payment reference
  (\<open>with_ref = False\<close>); the two other endpoints do.
\<close>

definition new_order :: "bool \<Rightarrow> row \<Rightarrow> py_exception + order_data" where
  "new_order with_ref r =
     (case CreatedAt r of
        None \<Rightarrow> Inl AttributeError
      | Some t \<Rightarrow>
          Inr \<lparr> od_date = t, od_status = Status r, od_orderType = OrderType r,
                od_paymentMethod = PaymentMethod r, od_cashierName = CashierName r,
                od_GCashReferenceNumber = (if with_ref then GCashReferenceNumber r else None),
                od_items = 0, od_orderItems = [], od_totalDiscount = TotalDiscountAmount r \<rparr>)"

text \<open>
  The \<open>ProcessingSaleItem\<close> built from the item columns of a row:
  \<open>json.loads(row.Addons) if row.Addons else {}\<close>, then the constructor.
\<close>

definition make_item :: "row \<Rightarrow> py_exception + ProcessingSaleItem" where
  "make_item r =
     (let item_quantity = int_or (Quantity r) 0;
          item_price = dec_or (UnitPrice r) Decimal_0_0
      in case (case Addons r of
                 None \<Rightarrow> Inr (PyDict [])
               | Some t \<Rightarrow> if t = Blank then Inr (PyDict []) else json_loads t) of
           Inl e \<Rightarrow> Inl e
         | Inr a \<Rightarrow>
             ProcessingSaleItem_init (ItemName r) item_quantity (float_Decimal item_price) (Category r) a)"

text \<open>\<open>item_price * item_quantity\<close>, a \<open>Decimal\<close> times an \<open>int\<close>.\<close>

definition line_amount :: "row \<Rightarrow> decimal" where
  "line_amount r = dmul (dec_or (UnitPrice r) Decimal_0_0) (Decimal_int (int_or (Quantity r) 0))"

text \<open>\<open>if row.SaleItemID:\<close> is Python truthiness of an integer or \<open>None\<close>.\<close>

definition truthy :: "int option \<Rightarrow> bool" where
  "truthy k = (case k of None \<Rightarrow> False | Some i \<Rightarrow> i \<noteq> 0)"

text \<open>
  One iteration of \<open>for row in rows\<close>. \<open>KeyError\<close> is that of
  \<open>item_subtotals[sale_id] += ...\<close> on a missing key.
\<close>

definition agg_step ::
  "bool \<Rightarrow> orders_dict \<times> item_subtotals \<Rightarrow> row \<Rightarrow> py_exception + orders_dict \<times> item_subtotals" where
  "agg_step with_ref st r =
     (let sale_id = SaleID r;
          (od, subs) = st
      in case (if \<not> has_key od sale_id
               then (case new_order with_ref r of
                       Inl e \<Rightarrow> Inl e
                     | Inr ord \<Rightarrow> Inr (od @ [(sale_id, ord)], subs(sale_id \<mapsto> Decimal_0_0)))
               else Inr (od, subs)) of
           Inl e \<Rightarrow> Inl e
         | Inr (od1, subs1) \<Rightarrow>
             if truthy (SaleItemID r) then
               (case subs1 sale_id of
                  None \<Rightarrow> Inl KeyError
                | Some sub \<Rightarrow>
                    (case make_item r of
                       Inl e \<Rightarrow> Inl e
                     | Inr it \<Rightarrow>
                         Inr (update_key sale_id
                                (\<lambda>ord. ord\<lparr> od_items := od_items ord + int_or (Quantity r) 0,
                                             od_orderItems := od_orderItems ord @ [it] \<rparr>) od1,
                              subs1(sale_id \<mapsto> dadd sub (line_amount r)))))
             else Inr (od1, subs1))"

fun agg_loop ::
  "bool \<Rightarrow> orders_dict \<times> item_subtotals \<Rightarrow> row list \<Rightarrow> py_exception + orders_dict \<times> item_subtotals" where
  "agg_loop with_ref st [] = Inr st"
| "agg_loop with_ref st (r # rs) =
     (case agg_step with_ref st r of
        Inl e \<Rightarrow> Inl e
      | Inr st' \<Rightarrow> agg_loop with_ref st' rs)"

text \<open>
  The second loop, one entry: \<open>final_total = subtotal - total_discount\<close>, which raises
  on a null discount, then \<open>float(final_total)\<close> and the constructor of the order.
\<close>

definition finalize :: "item_subtotals \<Rightarrow> int \<times> order_data \<Rightarrow> py_exception + ProcessingOrder" where
  "finalize subs e =
     (let (sale_id, ord) = e;
          subtotal = (case subs sale_id of None \<Rightarrow> Decimal_0_0 | Some s \<Rightarrow> s)
      in case od_totalDiscount ord of
           None \<Rightarrow> Inl TypeError
         | Some total_discount \<Rightarrow>
             ProcessingOrder_init sale_id ord (float_Decimal (dsub subtotal total_discount)))"

fun response_list :: "item_subtotals \<Rightarrow> orders_dict \<Rightarrow> py_exception + ProcessingOrder list" where
  "response_list subs [] = Inr []"
| "response_list subs (e # es) =
     (case finalize subs e of
        Inl x \<Rightarrow> Inl x
      | Inr ord \<Rightarrow> (case response_list subs es of Inl x \<Rightarrow> Inl x | Inr os \<Rightarrow> Inr (ord # os)))"

text \<open>
  The aggregation of the three endpoints, from the fetched rows to the response.
  An exception raised in it is caught by the endpoint's \<open>except Exception\<close> and
  turned into status 500 with the endpoint's own message.
\<close>

definition aggregate :: "bool \<Rightarrow> string \<Rightarrow> row list \<Rightarrow> http_error + ProcessingOrder list" where
  "aggregate with_ref failure_detail rows =
     (case agg_loop with_ref ([], Map.empty) rows of
        Inl e \<Rightarrow> Inl (HTTPException 500 failure_detail)
      | Inr (od, subs) \<Rightarrow>
          (case response_list subs od of
             Inl e \<Rightarrow> Inl (HTTPException 500 failure_detail)
           | Inr os \<Rightarrow> Inr os))"

section \<open>The relational store\<close>

text \<open>
  Modelled from the spec: the tables of the store, whose schema is not part of the
  sources. The columns are those that the statements of the routers name; a line item
  carries name, quantity, unit price and category and an optional addon payload (held
  decoded), a session gets its close-time columns on close. The field prefixes are the aliases
  of the SQL statements (\<open>s\<close>, \<open>si\<close>, \<open>co\<close>).
\<close>

record sale =
  s_SaleID :: int
  s_OrderType :: string
  s_PaymentMethod :: string
  s_CashierName :: string
  s_TotalDiscountAmount :: decimal
  s_Status :: string
  s_GCashReferenceNumber :: "string option"
  s_CreatedAt :: datetime
  s_UpdatedAt :: "datetime option"

record sale_item =
  si_SaleItemID :: int
  si_SaleID :: int
  si_ItemName :: string
  si_Quantity :: int
  si_UnitPrice :: decimal
  si_Category :: string
  si_Addons :: "addons option"

record cancelled_order =
  co_SaleID :: int
  co_ManagerUsername :: string
  co_CancelledAt :: datetime

record cashier_session =
  cs_SessionID :: int
  cs_CashierName :: string
  cs_InitialCash :: pyfloat
  cs_Status :: string
  cs_SessionStart :: datetime
  cs_SessionEnd :: "datetime option"
  cs_ClosingCash :: "decimal option"
  cs_CashSalesAtClose :: "decimal option"

record db =
  Sales :: "sale list"
  SaleItems :: "sale_item list"
  CancelledOrders :: "cancelled_order list"
  CashierSessions :: "cashier_session list"

text \<open>The body of a JSON response: a Python dict of strings and integers.\<close>

datatype json = JStr string | JInt int

type_synonym response = "(string \<times> json) list"

text \<open>
  \<open>SUM\<close> over exact SQL decimals, wrapped in \<open>ISNULL(..., 0)\<close>: the sum of no rows is
  null and is replaced by the integer 0.
\<close>

definition sql_sum_isnull :: "decimal list \<Rightarrow> decimal" where
  "sql_sum_isnull xs = (case xs of [] \<Rightarrow> Decimal_int 0 | y # ys \<Rightarrow> foldl exact_add y ys)"

section \<open>Closing a cashier session (\<open>cash_tally.py\<close>)\<close>

record CloseSessionRequest =
  sessionId :: int
  cashCounts :: "(string \<times> int) list"

text \<open>
  The table \<open>denominations\<close> of the source: integers, and the float literals
  \<open>0.25\<close>, \<open>0.10\<close> and \<open>0.05\<close>, which denote the binary fractions \<open>1 / 2 ^ 2\<close>,
  \<open>3602879701896397 / 2 ^ 55\<close> and \<open>3602879701896397 / 2 ^ 56\<close>.
\<close>

definition denominations :: "(string \<times> (int + pyfloat)) list" where
  "denominations =
     [(''bills1000'', Inl 1000), (''bills500'', Inl 500), (''bills200'', Inl 200),
      (''bills100'', Inl 100), (''bills50'', Inl 50), (''bills20'', Inl 20),
      (''coins10'', Inl 10), (''coins5'', Inl 5), (''coins1'', Inl 1),
      (''cents25'', Inr (Float 1 2)), (''cents10'', Inr (Float 3602879701896397 55)),
      (''cents05'', Inr (Float 3602879701896397 56))]"

definition Decimal_num :: "int + pyfloat \<Rightarrow> decimal" where
  "Decimal_num v = (case v of Inl n \<Rightarrow> Decimal_int n | Inr x \<Rightarrow> Decimal_float x)"

text \<open>The loop over \<open>request.cashCounts.items()\<close>, from \<open>closing_cash\<close> on.\<close>

fun count_cash :: "decimal \<Rightarrow> (string \<times> int) list \<Rightarrow> decimal" where
  "count_cash closing_cash [] = closing_cash"
| "count_cash closing_cash ((key, count') # rest) =
     (case map_of denominations key of
        Some v \<Rightarrow> count_cash (dadd closing_cash (dmul (Decimal_num v) (Decimal_int count'))) rest
      | None \<Rightarrow> count_cash closing_cash rest)"

text \<open>Step 1: the session with the given id and status \<open>Active\<close>.\<close>

definition active_session :: "db \<Rightarrow> int \<Rightarrow> cashier_session option" where
  "active_session d sid =
     find (\<lambda>c. cs_SessionID c = sid \<and> cs_Status c = ''Active'') (CashierSessions d)"

text \<open>Step 2: the cash sales of the cashier since the session started.\<close>

definition cash_sales_since :: "db \<Rightarrow> string \<Rightarrow> datetime \<Rightarrow> decimal" where
  "cash_sales_since d cashier start =
     sql_sum_isnull
       (concat (map (\<lambda>s. map (\<lambda>si. exact_mul (si_UnitPrice si) (Decimal_int (si_Quantity si)))
                              (filter (\<lambda>si. s_SaleID s = si_SaleID si) (SaleItems d)))
                    (filter (\<lambda>s. s_CashierName s = cashier \<and> s_PaymentMethod s = ''Cash''
                                 \<and> s_Status s = ''completed'' \<and> start \<le> s_CreatedAt s)
                            (Sales d))))"

text \<open>Step 4: the \<open>UPDATE CashierSessions ... WHERE SessionID = ?\<close>.\<close>

definition close_row :: "datetime \<Rightarrow> decimal \<Rightarrow> decimal \<Rightarrow> int \<Rightarrow> cashier_session \<Rightarrow> cashier_session" where
  "close_row now closing_cash cash_sales_at_close sid c =
     (if cs_SessionID c = sid
      then c\<lparr> cs_Status := ''Closed'', cs_SessionEnd := Some now,
               cs_ClosingCash := Some closing_cash, cs_CashSalesAtClose := Some cash_sales_at_close \<rparr>
      else c)"

text \<open>
  The \<open>try\<close> block of \<open>close_session\<close>: \<open>Inl\<close> is the exception raised in it,
  \<open>Inr\<close> the response and the committed store.
\<close>

definition close_session_try :: "datetime \<Rightarrow> CloseSessionRequest \<Rightarrow> db \<Rightarrow> http_error + response \<times> db" where
  "close_session_try now request d =
     (case active_session d (sessionId request) of
        None \<Rightarrow> Inl (HTTPException 404 ''No active session found with the provided ID.'')
      | Some session_row \<Rightarrow>
          (let cash_sales_at_close = cash_sales_since d (cs_CashierName session_row) (cs_SessionStart session_row);
               closing_cash = count_cash (Decimal_int 0) (cashCounts request)
           in Inr ([(''message'', JStr ''Session closed successfully''),
                    (''sessionId'', JInt (sessionId request))],
                   d\<lparr> CashierSessions :=
                        map (close_row now closing_cash cash_sales_at_close (sessionId request))
                            (CashierSessions d) \<rparr>)))"

text \<open>
  The endpoint: the role check is made before the \<open>try\<close>; the handler
  \<open>except Exception\<close> catches whatever the block raises, the \<open>HTTPException\<close> of
  step 1 included, rolls back and raises status 500.
\<close>

definition close_session :: "datetime \<Rightarrow> CloseSessionRequest \<Rightarrow> user \<Rightarrow> db \<Rightarrow> (http_error + response) \<times> db" where
  "close_session now request current_user d =
     (if \<not> role_in current_user [''admin'', ''manager'', ''cashier'']
      then (Inl (HTTPException 403 ''Permission denied.''), d)
      else (case close_session_try now request d of
              Inl e \<Rightarrow> (Inl (HTTPException 500 ''An error occurred while closing the session.''), d)
            | Inr (resp, d') \<Rightarrow> (Inr resp, d')))"

section \<open>Starting a cashier session (\<open>session.py\<close>)\<close>

text \<open>
  Modelled from the spec: the \<open>INSERT\<close> of \<open>start_session\<close> names the cashier and the
  initial cash only; the store gives the new row a fresh session id, the status
  \<open>Active\<close> and the current time as session start.
\<close>

definition fresh_id :: "int list \<Rightarrow> int" where
  "fresh_id ids = fold max ids 0 + 1"

definition insert_session :: "datetime \<Rightarrow> string \<Rightarrow> pyfloat \<Rightarrow> db \<Rightarrow> db" where
  "insert_session now cashier_name initial_cash d =
     d\<lparr> CashierSessions := CashierSessions d @
          [\<lparr> cs_SessionID = fresh_id (map cs_SessionID (CashierSessions d)),
             cs_CashierName = cashier_name, cs_InitialCash = initial_cash,
             cs_Status = ''Active'', cs_SessionStart = now, cs_SessionEnd = None,
             cs_ClosingCash = None, cs_CashSalesAtClose = None \<rparr>] \<rparr>"

definition float_negative :: "pyfloat \<Rightarrow> bool" where
  "float_negative x = (case x of Float n k \<Rightarrow> n < 0)"

definition has_active_session :: "db \<Rightarrow> string \<Rightarrow> bool" where
  "has_active_session d cashier_name =
     list_ex (\<lambda>c. cs_CashierName c = cashier_name \<and> cs_Status c = ''Active'') (CashierSessions d)"

text \<open>
  \<open>start_session\<close>: \<open>validate_token_and_roles\<close>, the two checks of the input, the
  check for an active session and the insert. Its handler re-raises an
  \<open>HTTPException\<close> as it is.
\<close>

definition start_session :: "datetime \<Rightarrow> pyfloat \<Rightarrow> user \<Rightarrow> db \<Rightarrow> (http_error + response) \<times> db" where
  "start_session now initial_cash user_data d =
     (if \<not> role_in user_data [''cashier'', ''manager'', ''admin'']
      then (Inl (HTTPException 403 (''Access denied. Role '' @ [CHR 0x27]
                                      @ (case userRole user_data of None \<Rightarrow> ''None'' | Some r \<Rightarrow> r)
                                      @ [CHR 0x27] @ '' is not authorized for this action.'')), d)
      else (case username user_data of
              None \<Rightarrow> (Inl (HTTPException 400 ''Username not found in authentication token.''), d)
            | Some cashier_name \<Rightarrow>
                if cashier_name = [] then (Inl (HTTPException 400 ''Username not found in authentication token.''), d)
                else if float_negative initial_cash
                then (Inl (HTTPException 400 ''Initial cash amount cannot be negative.''), d)
                else if has_active_session d cashier_name
                then (Inl (HTTPException 409 ''An active session already exists for this cashier.''), d)
                else (Inr [(''message'', JStr (''Cashier session for '' @ [CHR 0x27] @ cashier_name @ [CHR 0x27]
                                                  @ '' started successfully.''))],
                      insert_session now cashier_name initial_cash d)))"

section \<open>Updating the status of an order (\<open>purchase_order.py\<close>)\<close>

datatype new_status = Completed | Cancelled | Processing

definition status_text :: "new_status \<Rightarrow> string" where
  "status_text st = (case st of Completed \<Rightarrow> ''completed'' | Cancelled \<Rightarrow> ''cancelled''
                                | Processing \<Rightarrow> ''processing'')"

record CancelDetails =
  managerUsername :: string

record UpdateOrderStatusRequest =
  newStatus :: new_status
  cancelDetails :: "CancelDetails option"

text \<open>
  The outcome of one restock call as \<open>asyncio.gather(..., return_exceptions=True)\<close>
  collects it: the exception raised by the transport, or the response with its status
  code and text.
\<close>

datatype call_result = RequestError string | HTTPResponse nat string

record restock_item =
  product_name :: string
  ri_quantity :: int
  ri_category :: string

text \<open>
  The two error lines that the restock loop logs: the service, the order id and the
  exception, or the service, the order id, the status code and the text of the response.
\<close>

datatype log_line = RestockCallFailed string string string | RestockRefused string string nat string

text \<open>What a request did besides answering: the calls it posted and the restock errors it logged.\<close>

record effects =
  posted :: "(string \<times> restock_item list) list"
  logged :: "log_line list"

definition ingredients_url :: string where
  "ingredients_url = ''http://127.0.0.1:8002/ingredients/restock-from-cancelled-order''"

definition materials_url :: string where
  "materials_url = ''http://127.0.0.1:8002/materials/restock-from-cancelled-order''"

text \<open>\<open>order_id.split('-')[-1]\<close>: the text after the last hyphen.\<close>

definition last_segment :: "string \<Rightarrow> string" where
  "last_segment order_id = rev (takeWhile (\<lambda>c. c \<noteq> CHR ''-'') (rev order_id))"

text \<open>\<open>UPDATE Sales SET Status = ?, UpdatedAt = GETDATE() WHERE SaleID = ?\<close> and its row count.\<close>

definition set_status :: "datetime \<Rightarrow> string \<Rightarrow> int \<Rightarrow> sale \<Rightarrow> sale" where
  "set_status now st parsed_id s =
     (if s_SaleID s = parsed_id then s\<lparr> s_Status := st, s_UpdatedAt := Some now \<rparr> else s)"

definition rowcount :: "db \<Rightarrow> int \<Rightarrow> nat" where
  "rowcount d parsed_id = length (filter (\<lambda>s. s_SaleID s = parsed_id) (Sales d))"

definition restock_rows :: "db \<Rightarrow> int \<Rightarrow> restock_item list" where
  "restock_rows d parsed_id =
     map (\<lambda>si. \<lparr> product_name = si_ItemName si, ri_quantity = si_Quantity si,
                   ri_category = si_Category si \<rparr>)
         (filter (\<lambda>si. si_SaleID si = parsed_id) (SaleItems d))"

text \<open>
  The inner \<open>try\<close> of the cancellation: update, insert of the cancellation record,
  read of the items, commit. \<open>Inl\<close> is the exception raised in it.
\<close>

definition cancel_try :: "datetime \<Rightarrow> int \<Rightarrow> string \<Rightarrow> string \<Rightarrow> db \<Rightarrow> http_error + restock_item list \<times> db" where
  "cancel_try now parsed_id order_id manager d =
     (if rowcount d parsed_id = 0
      then Inl (HTTPException 404 (''Order '' @ [CHR 0x27] @ order_id @ [CHR 0x27] @ '' not found.''))
      else Inr (restock_rows d parsed_id,
                d\<lparr> Sales := map (set_status now ''cancelled'' parsed_id) (Sales d),
                   CancelledOrders := CancelledOrders d @
                     [\<lparr> co_SaleID = parsed_id, co_ManagerUsername = manager, co_CancelledAt = now \<rparr>] \<rparr>))"

text \<open>The log line of one collected restock result, if it is a failure.\<close>

definition restock_log :: "string \<Rightarrow> string \<Rightarrow> call_result \<Rightarrow> log_line list" where
  "restock_log service order_id res =
     (case res of
        RequestError e \<Rightarrow> [RestockCallFailed service order_id e]
      | HTTPResponse code text \<Rightarrow>
          if code \<noteq> 200 then [RestockRefused service order_id code text] else [])"

text \<open>
  \<open>update_order_status\<close>. \<open>py_int\<close> stands for Python's \<open>int()\<close> on the last segment
  of the order id (\<open>None\<close> for \<open>ValueError\<close>), \<open>post\<close> for the outcome of a restock
  call to a URL with a payload.
\<close>

definition update_order_status ::
  "datetime \<Rightarrow> (string \<Rightarrow> int option) \<Rightarrow> (string \<Rightarrow> restock_item list \<Rightarrow> call_result)
     \<Rightarrow> string \<Rightarrow> UpdateOrderStatusRequest \<Rightarrow> user \<Rightarrow> db
     \<Rightarrow> (http_error + response) \<times> db \<times> effects" where
  "update_order_status now py_int post order_id request current_user d =
     (let quiet = \<lparr> posted = [], logged = [] \<rparr> in
      if \<not> role_in current_user [''admin'', ''manager'', ''staff'', ''cashier'']
      then (Inl (HTTPException 403 ''Permission denied.''), d, quiet)
      else (case py_int (last_segment order_id) of
        None \<Rightarrow> (Inl (HTTPException 400 ''Invalid order ID format.''), d, quiet)
      | Some parsed_id \<Rightarrow>
          if newStatus request = Cancelled then
            (case cancelDetails request of
               None \<Rightarrow> (Inl (HTTPException 400 ''Manager username required for cancellation.''), d, quiet)
             | Some details \<Rightarrow>
                 if managerUsername details = []
                 then (Inl (HTTPException 400 ''Manager username required for cancellation.''), d, quiet)
                 else (case cancel_try now parsed_id order_id (managerUsername details) d of
                         Inl e \<Rightarrow> (Inl (HTTPException 500 ''Failed to save cancellation to DB.''), d, quiet)
                       | Inr (items_to_restock, d') \<Rightarrow>
                           (Inr [(''message'', JStr ''Order has been cancelled and inventory restock initiated.'')],
                            d',
                            if items_to_restock \<noteq> []
                            then \<lparr> posted = [(ingredients_url, items_to_restock), (materials_url, items_to_restock)],
                                   logged = restock_log ''Ingredients'' order_id (post ingredients_url items_to_restock)
                                          @ restock_log ''Materials'' order_id (post materials_url items_to_restock) \<rparr>
                            else quiet)))
          else if rowcount d parsed_id = 0
          then (Inl (HTTPException 404 (''Order '' @ [CHR 0x27] @ order_id @ [CHR 0x27] @ '' not found.'')), d, quiet)
          else (Inr [(''message'', JStr (''Order status successfully updated to '' @ [CHR 0x27]
                                          @ status_text (newStatus request) @ [CHR 0x27] @ ''.''))],
                d\<lparr> Sales := map (set_status now (status_text (newStatus request)) parsed_id) (Sales d) \<rparr>,
                quiet)))"

section \<open>Top products of the day (\<open>top_products.py\<close>)\<close>

record TopProductItem =
  tp_name :: string
  tp_sales :: int

text \<open>
  The rows of \<open>Sales JOIN SaleItems\<close> that the statement keeps: items of the completed
  sales of the cashier created today.
\<close>

definition todays_items :: "datetime \<Rightarrow> string \<Rightarrow> db \<Rightarrow> sale_item list" where
  "todays_items now cashier d =
     concat (map (\<lambda>s. filter (\<lambda>si. s_SaleID s = si_SaleID si) (SaleItems d))
                 (filter (\<lambda>s. s_Status s = ''completed'' \<and> s_CashierName s = cashier
                              \<and> date_of (s_CreatedAt s) = date_of now)
                         (Sales d)))"

text \<open>\<open>GROUP BY si.ItemName\<close> with \<open>SUM(si.Quantity)\<close>: one row per item name.\<close>

definition group_quantities :: "sale_item list \<Rightarrow> (string \<times> int) list" where
  "group_quantities its =
     map (\<lambda>n. (n, sum_list (map si_Quantity (filter (\<lambda>si. si_ItemName si = n) its))))
         (remdups (map si_ItemName its))"

text \<open>
  \<open>ORDER BY TotalQuantitySold DESC\<close> and \<open>TOP 10\<close>. SQL leaves the order of rows with
  equal totals open; the stable sort used here is one admissible order.
\<close>

definition top_products_query :: "datetime \<Rightarrow> string \<Rightarrow> db \<Rightarrow> (string \<times> int) list" where
  "top_products_query now cashier d =
     take 10 (sort_key (\<lambda>g. - snd g) (group_quantities (todays_items now cashier d)))"

record TopProductsRequest =
  tpr_cashierName :: string

definition get_top_products_today :: "datetime \<Rightarrow> TopProductsRequest \<Rightarrow> user \<Rightarrow> db \<Rightarrow> http_error + TopProductItem list" where
  "get_top_products_today now request current_user d =
     (if \<not> role_in current_user [''admin'', ''manager'', ''cashier'']
      then Inl (HTTPException 403 ''Permission denied.'')
      else Inr (map (\<lambda>g. \<lparr> tp_name = fst g, tp_sales = snd g \<rparr>)
                    (top_products_query now (tpr_cashierName request) d)))"

section \<open>The processing orders (\<open>purchase_order.py\<close>)\<close>

text \<open>
  The rows that \<open>Sales LEFT JOIN SaleItems\<close> yields for one sale. The store holds an
  addon payload decoded; its column text is that of the object. The columns of the
  modelled store are never null but for the payment reference and the addons, so the
  rows of its joins carry every required column; the aggregator is defined on every
  row sequence, with or without nulls.
\<close>

definition order_row :: "sale \<Rightarrow> row" where
  "order_row s =
     \<lparr> SaleID = s_SaleID s, OrderType = Some (s_OrderType s), PaymentMethod = Some (s_PaymentMethod s),
       CreatedAt = Some (s_CreatedAt s), CashierName = Some (s_CashierName s),
       TotalDiscountAmount = Some (s_TotalDiscountAmount s), Status = Some (s_Status s),
       GCashReferenceNumber = s_GCashReferenceNumber s,
       SaleItemID = None, ItemName = None, Quantity = None, UnitPrice = None,
       Category = None, Addons = None \<rparr>"

definition item_row :: "sale \<Rightarrow> sale_item \<Rightarrow> row" where
  "item_row s si =
     (order_row s)\<lparr> SaleItemID := Some (si_SaleItemID si), ItemName := Some (si_ItemName si),
                    Quantity := Some (si_Quantity si), UnitPrice := Some (si_UnitPrice si),
                    Category := Some (si_Category si),
                    Addons := map_option (\<lambda>a. Text (PyDict a)) (si_Addons si) \<rparr>"

definition left_join :: "db \<Rightarrow> sale \<Rightarrow> row list" where
  "left_join d s =
     (let its = filter (\<lambda>si. s_SaleID s = si_SaleID si) (SaleItems d)
      in if its = [] then [order_row s] else map (item_row s) its)"

text \<open>
  The statement of \<open>get_processing_orders\<close> with its parameters: the status filter,
  the cashier filter that the role decides, and \<open>ORDER BY s.CreatedAt ASC, s.SaleID ASC\<close>.
  A null parameter (a caller without username) equals no cashier name.
\<close>

definition processing_rows :: "string option \<Rightarrow> user \<Rightarrow> db \<Rightarrow> row list" where
  "processing_rows cashierName_param current_user d =
     (let in_status = (\<lambda>s. s_Status s \<in> {''processing'', ''completed'', ''cancelled''});
          by_cashier =
            (if role_in current_user [''admin'', ''manager'']
             then (case cashierName_param of
                     None \<Rightarrow> (\<lambda>s. True)
                   | Some c \<Rightarrow> if c = [] then (\<lambda>s. True) else (\<lambda>s. s_CashierName s = c))
             else (case username current_user of
                     None \<Rightarrow> (\<lambda>s. False)
                   | Some u \<Rightarrow> (\<lambda>s. s_CashierName s = u)))
      in concat (map (left_join d)
                     (sort_key (\<lambda>s. (s_CreatedAt s, s_SaleID s))
                               (filter (\<lambda>s. in_status s \<and> by_cashier s) (Sales d)))))"

definition get_processing_orders :: "string option \<Rightarrow> user \<Rightarrow> db \<Rightarrow> http_error + ProcessingOrder list" where
  "get_processing_orders cashierName_param current_user d =
     (if \<not> role_in current_user [''admin'', ''manager'', ''staff'', ''cashier'']
      then Inl (HTTPException 403 ''You do not have permission to view orders.'')
      else aggregate False ''Failed to fetch processing orders.''
             (processing_rows cashierName_param current_user d))"

section \<open>All orders and today's cancelled orders\<close>

text \<open>
  \<open>get_all_orders\<close>: every sale in one of the three states with its items,
  \<open>ORDER BY s.CreatedAt DESC, s.SaleID DESC\<close>, for admins and managers.
\<close>

definition all_rows :: "db \<Rightarrow> row list" where
  "all_rows d =
     concat (map (left_join d)
                 (rev (sort_key (\<lambda>s. (s_CreatedAt s, s_SaleID s))
                                (filter (\<lambda>s. s_Status s \<in> {''completed'', ''processing'', ''cancelled''})
                                        (Sales d)))))"

definition get_all_orders :: "user \<Rightarrow> db \<Rightarrow> http_error + ProcessingOrder list" where
  "get_all_orders current_user d =
     (if \<not> role_in current_user [''admin'', ''manager'']
      then Inl (HTTPException 403 ''You do not have permission to view all orders.'')
      else aggregate True ''Failed to fetch all orders.'' (all_rows d))"

text \<open>
  \<open>get_todays_cancelled_orders\<close>: the cancelled sales of a cashier joined with their
  cancellation records of today, \<open>ORDER BY co.CancelledAt DESC\<close>, each with its items.
\<close>

record CancelledOrderRequest =
  cor_cashierName :: string

definition cancelled_rows :: "datetime \<Rightarrow> string \<Rightarrow> db \<Rightarrow> row list" where
  "cancelled_rows now cashier d =
     concat (map (\<lambda>p. left_join d (fst p))
                 (rev (sort_key (\<lambda>p. co_CancelledAt (snd p))
                        (concat (map (\<lambda>s. map (\<lambda>co. (s, co))
                                               (filter (\<lambda>co. s_SaleID s = co_SaleID co
                                                             \<and> date_of (co_CancelledAt co) = date_of now)
                                                       (CancelledOrders d)))
                                     (filter (\<lambda>s. s_Status s = ''cancelled'' \<and> s_CashierName s = cashier)
                                             (Sales d)))))))"

definition get_todays_cancelled_orders ::
  "datetime \<Rightarrow> CancelledOrderRequest \<Rightarrow> user \<Rightarrow> db \<Rightarrow> http_error + ProcessingOrder list" where
  "get_todays_cancelled_orders now request current_user d =
     (if \<not> role_in current_user [''admin'', ''manager'', ''cashier'']
      then Inl (HTTPException 403 ''You do not have permission to view this data.'')
      else aggregate True (''Failed to fetch today'' @ [CHR 0x27] @ ''s cancelled orders.'')
             (cancelled_rows now (cor_cashierName request) d))"

section \<open>A small store for the examples\<close>

definition ann :: user where
  "ann = \<lparr> username = Some ''ann'', userRole = Some ''cashier'', access_token = ''t1'' \<rparr>"

definition store0 :: db where
  "store0 =
     \<lparr> Sales =
         [\<lparr> s_SaleID = 1, s_OrderType = ''Dine in'', s_PaymentMethod = ''Cash'', s_CashierName = ''ann'',
            s_TotalDiscountAmount = Dec 500 (- 2), s_Status = ''completed'',
            s_GCashReferenceNumber = None, s_CreatedAt = 90000, s_UpdatedAt = None \<rparr>,
          \<lparr> s_SaleID = 2, s_OrderType = ''Take out'', s_PaymentMethod = ''GCash'', s_CashierName = ''ann'',
            s_TotalDiscountAmount = Dec 0 (- 2), s_Status = ''processing'',
            s_GCashReferenceNumber = Some ''G-77'', s_CreatedAt = 90500, s_UpdatedAt = None \<rparr>,
          \<lparr> s_SaleID = 3, s_OrderType = ''Dine in'', s_PaymentMethod = ''Cash'', s_CashierName = ''bob'',
            s_TotalDiscountAmount = Dec 0 (- 2), s_Status = ''completed'',
            s_GCashReferenceNumber = None, s_CreatedAt = 91000, s_UpdatedAt = None \<rparr>],
       SaleItems =
         [\<lparr> si_SaleItemID = 1, si_SaleID = 1, si_ItemName = ''Latte'', si_Quantity = 2,
            si_UnitPrice = Dec 12050 (- 2), si_Category = ''Drinks'', si_Addons = None \<rparr>,
          \<lparr> si_SaleItemID = 2, si_SaleID = 1, si_ItemName = ''Bagel'', si_Quantity = 1,
            si_UnitPrice = Dec 8000 (- 2), si_Category = ''Food'', si_Addons = None \<rparr>,
          \<lparr> si_SaleItemID = 3, si_SaleID = 2, si_ItemName = ''Latte'', si_Quantity = 1,
            si_UnitPrice = Dec 12050 (- 2), si_Category = ''Drinks'', si_Addons = None \<rparr>,
          \<lparr> si_SaleItemID = 4, si_SaleID = 3, si_ItemName = ''Mocha'', si_Quantity = 3,
            si_UnitPrice = Dec 13000 (- 2), si_Category = ''Drinks'', si_Addons = None \<rparr>],
       CancelledOrders = [],
       CashierSessions =
         [\<lparr> cs_SessionID = 1, cs_CashierName = ''ann'', cs_InitialCash = Float 1000 0,
            cs_Status = ''Closed'', cs_SessionStart = 80000, cs_SessionEnd = Some 85000,
            cs_ClosingCash = Some (Dec 1000 0), cs_CashSalesAtClose = Some (Dec 0 0) \<rparr>,
          \<lparr> cs_SessionID = 2, cs_CashierName = ''ann'', cs_InitialCash = Float 500 0,
            cs_Status = ''Active'', cs_SessionStart = 89000, cs_SessionEnd = None,
            cs_ClosingCash = None, cs_CashSalesAtClose = None \<rparr>] \<rparr>"

definition bob :: user where
  "bob = \<lparr> username = Some ''bob'', userRole = Some ''cashier'', access_token = ''t2'' \<rparr>"

text \<open>Python's \<open>int()\<close> on the order ids used in the examples.\<close>

definition int_of_text :: "string \<Rightarrow> int option" where
  "int_of_text s = (if s = ''1'' then Some 1 else if s = ''2'' then Some 2
                    else if s = ''3'' then Some 3 else None)"

text \<open>Two inventory services: one that answers 200, and one that is down.\<close>

definition post_ok :: "string \<Rightarrow> restock_item list \<Rightarrow> call_result" where
  "post_ok url payload = HTTPResponse 200 ''ok''"

definition post_down :: "string \<Rightarrow> restock_item list \<Rightarrow> call_result" where
  "post_down url payload = RequestError ''connection refused''"

section \<open>Properties named by the claims\<close>

text \<open>A payload without the manager-identifying field: no \<open>cancelDetails\<close>, or an empty name.\<close>

definition lacks_manager :: "UpdateOrderStatusRequest \<Rightarrow> bool" where
  "lacks_manager request =
     (case cancelDetails request of None \<Rightarrow> True | Some details \<Rightarrow> managerUsername details = [])"

text \<open>
  The store cut down to what belongs to a caller: the sales whose cashier name is the
  caller's username, and the items of those sales.
\<close>

definition own_sales :: "user \<Rightarrow> db \<Rightarrow> db" where
  "own_sales u d =
     (let own = filter (\<lambda>s. Some (s_CashierName s) = username u) (Sales d)
      in d\<lparr> Sales := own,
            SaleItems := filter (\<lambda>si. si_SaleID si \<in> s_SaleID ` set own) (SaleItems d) \<rparr>)"

text \<open>A cancellation request naming a manager.\<close>

definition cancel_by :: "string \<Rightarrow> UpdateOrderStatusRequest" where
  "cancel_by manager = \<lparr> newStatus = Cancelled, cancelDetails = Some \<lparr> managerUsername = manager \<rparr> \<rparr>"

text \<open>
  A sequence of status updates, run one after the other on the store, and the requests
  of such a sequence that cancel order \<open>k\<close> successfully: permitted role, an order id
  that parses to \<open>k\<close>, new status \<open>cancelled\<close> with a manager, and an order \<open>k\<close> in
  the store. \<open>records_of d k\<close> are the Cancellation Records of order \<open>k\<close>.
\<close>

record status_update =
  su_now :: datetime
  su_order_id :: string
  su_request :: UpdateOrderStatusRequest
  su_user :: user

fun run_updates ::
  "(string \<Rightarrow> int option) \<Rightarrow> (string \<Rightarrow> restock_item list \<Rightarrow> call_result) \<Rightarrow> db \<Rightarrow> status_update list \<Rightarrow> db" where
  "run_updates py_int post d [] = d"
| "run_updates py_int post d (x # xs) =
     run_updates py_int post
       (fst (snd (update_order_status (su_now x) py_int post (su_order_id x) (su_request x) (su_user x) d))) xs"

definition cancels :: "(string \<Rightarrow> int option) \<Rightarrow> db \<Rightarrow> int \<Rightarrow> status_update \<Rightarrow> bool" where
  "cancels py_int d k x =
     (role_in (su_user x) [''admin'', ''manager'', ''staff'', ''cashier'']
      \<and> py_int (last_segment (su_order_id x)) = Some k
      \<and> newStatus (su_request x) = Cancelled \<and> \<not> lacks_manager (su_request x)
      \<and> rowcount d k \<noteq> 0)"

definition records_of :: "db \<Rightarrow> int \<Rightarrow> cancelled_order list" where
  "records_of d k = filter (\<lambda>c. co_SaleID c = k) (CancelledOrders d)"

text \<open>The example store with one more bagel on sale 1: latte and bagel both sold twice today.\<close>

definition store_tie :: db where
  "store_tie = store0\<lparr> SaleItems := SaleItems store0 @
     [\<lparr> si_SaleItemID = 5, si_SaleID = 1, si_ItemName = ''Bagel'', si_Quantity = 1,
        si_UnitPrice = Dec 8000 (- 2), si_Category = ''Food'', si_Addons = None \<rparr>] \<rparr>"

text \<open>
  The distinct keys of a sequence in the order in which they are first seen; the first
  row of an order; the item row that the source finds in a row (\<open>if row.SaleItemID:\<close>)
  and in the rows of an order, in row order; and the rows of an order whose item key
  is not null.
\<close>

fun first_seen :: "int list \<Rightarrow> int list" where
  "first_seen [] = []"
| "first_seen (k # ks) = k # filter (\<lambda>x. x \<noteq> k) (first_seen ks)"

definition first_row :: "int \<Rightarrow> row list \<Rightarrow> row" where
  "first_row k rows = hd (filter (\<lambda>r. SaleID r = k) rows)"

definition present :: "row \<Rightarrow> row list" where
  "present r = (if truthy (SaleItemID r) then [r] else [])"

definition items_of :: "int \<Rightarrow> row list \<Rightarrow> row list" where
  "items_of k rows = concat (map present (filter (\<lambda>r. SaleID r = k) rows))"

definition non_null_items :: "int \<Rightarrow> row list \<Rightarrow> row list" where
  "non_null_items k rows = filter (\<lambda>r. SaleItemID r \<noteq> None) (filter (\<lambda>r. SaleID r = k) rows)"

text \<open>
  The columns that the response models require. Of an item row: a name, a category,
  and an addon text that is empty, or decodes to an object or to null. Of the first
  row of an order, from which the entry of \<open>orders_dict\<close> is made: a creation time, a
  discount, and status, order type, payment method and cashier name. The aggregator
  accepts a row sequence when the item rows and the first rows of its orders have them.
\<close>

definition addons_ok :: "addons_text option \<Rightarrow> bool" where
  "addons_ok a = (a \<noteq> Some Malformed \<and> a \<noteq> Some (Text PyOther))"

definition item_columns_ok :: "row \<Rightarrow> bool" where
  "item_columns_ok r = (ItemName r \<noteq> None \<and> Category r \<noteq> None \<and> addons_ok (Addons r))"

definition order_columns_ok :: "row \<Rightarrow> bool" where
  "order_columns_ok r =
     (TotalDiscountAmount r \<noteq> None \<and> Status r \<noteq> None \<and> OrderType r \<noteq> None
      \<and> PaymentMethod r \<noteq> None \<and> CashierName r \<noteq> None)"

definition item_rows_ok :: "row list \<Rightarrow> bool" where
  "item_rows_ok rows = list_all (\<lambda>r. if truthy (SaleItemID r) then item_columns_ok r else True) rows"

definition loop_ok :: "row list \<Rightarrow> bool" where
  "loop_ok rows =
     (item_rows_ok rows
      \<and> list_all (\<lambda>k. CreatedAt (first_row k rows) \<noteq> None) (first_seen (map SaleID rows)))"

definition accepted :: "row list \<Rightarrow> bool" where
  "accepted rows =
     (loop_ok rows
      \<and> list_all (\<lambda>k. order_columns_ok (first_row k rows)) (first_seen (map SaleID rows)))"

text \<open>
  Rows that carry the required columns one by one, whichever row of an order comes
  first: every row the order-level columns, every item row the item-level ones.
\<close>

definition complete :: "row list \<Rightarrow> bool" where
  "complete rows =
     list_all (\<lambda>r. CreatedAt r \<noteq> None \<and> order_columns_ok r
                  \<and> (if truthy (SaleItemID r) then item_columns_ok r else True)) rows"

text \<open>
  What the loop has accumulated after a sequence of rows: the item that the source
  builds from an item row; for an order \<open>k\<close> of the rows the entry of \<open>orders_dict\<close>
  (made from the first row of \<open>k\<close>) and the subtotal, both as functions of the rows;
  the state of the loop; and the order that the second loop emits for \<open>k\<close>.
\<close>

definition item_of :: "row \<Rightarrow> ProcessingSaleItem" where
  "item_of r =
     \<lparr> name = the (ItemName r), quantity = int_or (Quantity r) 0,
       price = float_Decimal (dec_or (UnitPrice r) Decimal_0_0), category = the (Category r),
       addons = (case Addons r of
                   Some (Text (PyDict d)) \<Rightarrow> Some d
                 | Some (Text PyNone) \<Rightarrow> None
                 | _ \<Rightarrow> Some []) \<rparr>"

definition order_fields :: "bool \<Rightarrow> row \<Rightarrow> order_data" where
  "order_fields with_ref r =
     \<lparr> od_date = the (CreatedAt r), od_status = Status r, od_orderType = OrderType r,
       od_paymentMethod = PaymentMethod r, od_cashierName = CashierName r,
       od_GCashReferenceNumber = (if with_ref then GCashReferenceNumber r else None),
       od_items = 0, od_orderItems = [], od_totalDiscount = TotalDiscountAmount r \<rparr>"

definition acc_of :: "bool \<Rightarrow> row list \<Rightarrow> int \<Rightarrow> order_data" where
  "acc_of with_ref rows k =
     (order_fields with_ref (first_row k rows))
       \<lparr> od_items := sum_list (map (\<lambda>r. int_or (Quantity r) 0) (items_of k rows)),
         od_orderItems := map item_of (items_of k rows) \<rparr>"

definition sub_of :: "row list \<Rightarrow> int \<Rightarrow> decimal" where
  "sub_of rows k = foldl dadd Decimal_0_0 (map line_amount (items_of k rows))"

definition agg_state :: "bool \<Rightarrow> row list \<Rightarrow> orders_dict \<times> item_subtotals" where
  "agg_state w rows =
     (map (\<lambda>k. (k, acc_of w rows k)) (first_seen (map SaleID rows)),
      (\<lambda>k. if k \<in> SaleID ` set rows then Some (sub_of rows k) else None))"

definition order_of :: "bool \<Rightarrow> row list \<Rightarrow> int \<Rightarrow> ProcessingOrder" where
  "order_of with_ref rows k =
     (let h = first_row k rows
      in \<lparr> id' = k, date = the (CreatedAt h),
            items = sum_list (map (\<lambda>r. int_or (Quantity r) 0) (items_of k rows)),
            total' = float_Decimal (dsub (sub_of rows k) (the (TotalDiscountAmount h))),
            status = the (Status h), orderType = the (OrderType h),
            paymentMethod = the (PaymentMethod h), cashierName = the (CashierName h),
            gcashReferenceNumber = (if with_ref then GCashReferenceNumber h else None),
            orderItems = map item_of (items_of k rows) \<rparr>)"

text \<open>
  The rational value of a line: unit price times quantity, a null price or quantity
  counting as zero, as \<open>row.UnitPrice or Decimal('0.0')\<close> and \<open>row.Quantity or 0\<close> have
  it; and the rational value of the discount of a row.
\<close>

definition price_value :: "row \<Rightarrow> rat" where
  "price_value r = (case UnitPrice r of None \<Rightarrow> 0 | Some p \<Rightarrow> dval p)"

definition quantity_value :: "row \<Rightarrow> int" where
  "quantity_value r = (case Quantity r of None \<Rightarrow> 0 | Some q \<Rightarrow> q)"

definition line_value :: "row \<Rightarrow> rat" where
  "line_value r = price_value r * of_int (quantity_value r)"

definition discount_value :: "row \<Rightarrow> rat" where
  "discount_value r = (case TotalDiscountAmount r of None \<Rightarrow> 0 | Some d \<Rightarrow> dval d)"

text \<open>
  The amounts that the default context computes exactly: a decimal with at most \<open>s\<close>
  places (\<open>scale_ge\<close>); rows whose discounts and unit prices have at most \<open>s\<close> places;
  and an order whose lines and discount, taken as absolute values in units of
  \<open>10 ^ - s\<close>, add up to less than \<open>10 ^ 28\<close>.
\<close>

definition scale_ge :: "nat \<Rightarrow> decimal \<Rightarrow> bool" where
  "scale_ge s d = (- int s \<le> exponent d)"

definition places :: "nat \<Rightarrow> row list \<Rightarrow> bool" where
  "places s rows =
     list_all (\<lambda>r. (case TotalDiscountAmount r of None \<Rightarrow> True | Some d \<Rightarrow> scale_ge s d)
                  \<and> (case UnitPrice r of None \<Rightarrow> True | Some p \<Rightarrow> scale_ge s p))
              rows"

definition gross_bound :: "nat \<Rightarrow> row list \<Rightarrow> int \<Rightarrow> bool" where
  "gross_bound s rows k =
     (((\<Sum>r \<leftarrow> non_null_items k rows. \<bar>line_value r\<bar>) + \<bar>discount_value (first_row k rows)\<bar>) * 10 ^ s
        < 10 ^ 28)"

text \<open>
  Rows as a join yields them: the rows of one order carry the same order-level columns.
  And rows whose item keys, where they are not null, are not zero.
\<close>

definition order_columns ::
  "row \<Rightarrow> (string option \<times> string option \<times> datetime option \<times> string option)
           \<times> decimal option \<times> string option \<times> string option" where
  "order_columns r =
     ((OrderType r, PaymentMethod r, CreatedAt r, CashierName r),
      TotalDiscountAmount r, Status r, GCashReferenceNumber r)"

definition joined :: "row list \<Rightarrow> bool" where
  "joined rows =
     list_all (\<lambda>r. list_all (\<lambda>r'. SaleID r = SaleID r' \<longrightarrow> order_columns r = order_columns r') rows) rows"

definition no_zero_key :: "row list \<Rightarrow> bool" where
  "no_zero_key rows = list_all (\<lambda>r. SaleItemID r \<noteq> Some 0) rows"

text \<open>
  A fetched row with every column set, a line of order 1; and three fetched rows: a
  line of order 1, order 2 without items, another line of order 1.
\<close>

definition sample_row :: row where
  "sample_row =
     \<lparr> SaleID = 1, OrderType = Some ''Dine in'', PaymentMethod = Some ''Cash'',
       CreatedAt = Some 90000, CashierName = Some ''ann'',
       TotalDiscountAmount = Some (Dec 500 (- 2)), Status = Some ''cancelled'',
       GCashReferenceNumber = None,
       SaleItemID = Some 1, ItemName = Some ''Latte'', Quantity = Some 2,
       UnitPrice = Some (Dec 12050 (- 2)), Category = Some ''Drinks'', Addons = None \<rparr>"

definition rows_demo :: "row list" where
  "rows_demo =
     [sample_row,
      \<lparr> SaleID = 2, OrderType = Some ''Take out'', PaymentMethod = Some ''GCash'',
        CreatedAt = Some 90500, CashierName = Some ''ann'',
        TotalDiscountAmount = Some (Dec 1000 (- 2)), Status = Some ''cancelled'',
        GCashReferenceNumber = Some ''G-77'',
        SaleItemID = None, ItemName = None, Quantity = None, UnitPrice = None,
        Category = None, Addons = None \<rparr>,
      sample_row\<lparr> SaleItemID := Some 2, ItemName := Some ''Bagel'', Quantity := Some 1,
                   UnitPrice := Some (Dec 8000 (- 2)), Category := Some ''Food'' \<rparr>]"

text \<open>
  Single lines of an order without discount: one at 90071992547409.93; one without a
  category; one without a discount. And an order of two lines, at \<open>2 ^ 53 + 1\<close> and at
  \<open>10 ^ - 13\<close>.
\<close>

definition rows_float :: "row list" where
  "rows_float =
     [sample_row\<lparr> TotalDiscountAmount := Some (Dec 0 (- 2)), Quantity := Some 1,
                   UnitPrice := Some (Dec 9007199254740993 (- 2)) \<rparr>]"


definition rows_null_discount :: "row list" where
  "rows_null_discount = [sample_row\<lparr> TotalDiscountAmount := None \<rparr>]"

definition rows_wide :: "row list" where
  "rows_wide =
     [sample_row\<lparr> TotalDiscountAmount := Some (Dec 0 0), Quantity := Some 1,
                   UnitPrice := Some (Dec 9007199254740993 0) \<rparr>,
      sample_row\<lparr> TotalDiscountAmount := Some (Dec 0 0), SaleItemID := Some 2, Quantity := Some 1,
                   UnitPrice := Some (Dec 1 (- 13)) \<rparr>]"

text \<open>
  The value of a denomination as its label states it, in pesos, and the counted cash
  as the sum of value times count over the entries with a recognized key.
\<close>

definition denomination_value :: "string \<Rightarrow> rat" where
  "denomination_value key =
     (if key = ''bills1000'' then 1000 else if key = ''bills500'' then 500
      else if key = ''bills200'' then 200 else if key = ''bills100'' then 100
      else if key = ''bills50'' then 50 else if key = ''bills20'' then 20
      else if key = ''coins10'' then 10 else if key = ''coins5'' then 5
      else if key = ''coins1'' then 1 else if key = ''cents25'' then 1 / 4
      else if key = ''cents10'' then 1 / 10 else if key = ''cents05'' then 1 / 20 else 0)"

definition counted_sum :: "(string \<times> int) list \<Rightarrow> rat" where
  "counted_sum cash_counts = (\<Sum>e \<leftarrow> cash_counts. denomination_value (fst e) * of_int (snd e))"

section \<open>Values of decimals\<close>

lemma dval_powi: "dval d = of_int (coefficient d) * power_int 10 (exponent d)"
  by (cases "0 \<le> exponent d") (simp_all add: dval_def power_int_def field_simps)

lemma dval_exact_mul: "dval (exact_mul a b) = dval a * dval b"
  by (simp add: dval_powi exact_mul_def power_int_add)

lemma dval_exact_add: "dval (exact_add a b) = dval a + dval b"
proof -
  let ?e = "min (exponent a) (exponent b)"
  have p: "(of_int (10 ^ nat (x - ?e)) :: rat) * power_int 10 ?e = power_int 10 x" if "?e \<le> x" for x
  proof -
    have "(of_int (10 ^ nat (x - ?e)) :: rat) = power_int 10 (x - ?e)"
      using that by (simp add: power_int_def)
    then show ?thesis by (simp add: power_int_add [symmetric])
  qed
  have "dval (exact_add a b)
      = of_int (coefficient a) * (of_int (10 ^ nat (exponent a - ?e)) * power_int 10 ?e)
      + of_int (coefficient b) * (of_int (10 ^ nat (exponent b - ?e)) * power_int 10 ?e)"
    by (simp add: dval_powi exact_add_def Let_def algebra_simps)
  then show ?thesis
    by (simp only: p [of "exponent a"] p [of "exponent b"] min.cobounded1 min.cobounded2 dval_powi)
qed

lemma dval_dneg: "dval (dneg a) = - dval a"
  by (simp add: dval_powi dneg_def)

lemma dval_Decimal_int: "dval (Decimal_int n) = of_int n"
  by (simp add: dval_def Decimal_int_def)

lemma dval_foldl_exact_add: "dval (foldl exact_add y ys) = dval y + sum_list (map dval ys)"
  by (induction ys arbitrary: y) (simp_all add: dval_exact_add)

lemma sum_list_concat: "sum_list (concat xss) = (\<Sum>xs \<leftarrow> xss. sum_list xs)"
  by (induction xss) simp_all

lemma dval_sql_sum_isnull: "dval (sql_sum_isnull xs) = sum_list (map dval xs)"
  by (cases xs) (simp_all add: sql_sum_isnull_def dval_foldl_exact_add dval_Decimal_int)

section \<open>Sums that the decimal context computes exactly\<close>

lemma coef_bound:
  assumes "scale_ge s d"
  shows "(of_int \<bar>coefficient d\<bar> :: rat) \<le> \<bar>dval d\<bar> * 10 ^ s"
proof (cases "0 \<le> exponent d")
  case True
  have "(1::rat) \<le> 10 ^ (nat (exponent d) + s)"
    by (rule one_le_power) simp
  then have "(1::rat) \<le> 10 ^ nat (exponent d) * 10 ^ s"
    by (simp add: power_add)
  then have "(of_int \<bar>coefficient d\<bar> :: rat) * 1 \<le> of_int \<bar>coefficient d\<bar> * (10 ^ nat (exponent d) * 10 ^ s)"
    by (intro mult_left_mono) simp_all
  then show ?thesis
    using True by (simp add: dval_def abs_mult mult.assoc)
next
  case False
  then have l: "nat (- exponent d) \<le> s"
    using assms by (simp add: scale_ge_def)
  then obtain m where m: "s = nat (- exponent d) + m"
    using le_Suc_ex by blast
  have "(1::rat) \<le> 10 ^ m" by (simp add: one_le_power)
  then have "(of_int \<bar>coefficient d\<bar> :: rat) * 1 \<le> of_int \<bar>coefficient d\<bar> * 10 ^ m"
    by (intro mult_left_mono) simp_all
  moreover have "\<bar>dval d\<bar> * 10 ^ s = of_int \<bar>coefficient d\<bar> * 10 ^ m"
    using False by (simp add: dval_def abs_mult abs_divide m power_add)
  ultimately show ?thesis by simp
qed

lemma ndigits_le: "0 < k \<Longrightarrow> n < 10 ^ k \<Longrightarrow> ndigits n \<le> k"
proof (induction k arbitrary: n)
  case 0
  then show ?case by simp
next
  case (Suc k)
  show ?case
  proof (cases "n < 10")
    case True
    then show ?thesis by (simp add: ndigits.simps)
  next
    case False
    then have k: "0 < k" using Suc.prems by (cases k) auto
    have "n div 10 < 10 ^ k" using Suc.prems by simp
    from Suc.IH [OF k this] False show ?thesis by (simp add: ndigits.simps [of n])
  qed
qed

lemma ctx_round_exact: "\<bar>coefficient d\<bar> < 10 ^ 28 \<Longrightarrow> ctx_round d = d"
proof -
  assume "\<bar>coefficient d\<bar> < 10 ^ 28"
  then have "ndigits \<bar>coefficient d\<bar> \<le> 28" by (intro ndigits_le) simp_all
  then show ?thesis by (simp add: ctx_round_def prec_def)
qed

lemma ctx_round_small:
  assumes "scale_ge s d" and "\<bar>dval d\<bar> * 10 ^ s < 10 ^ 28"
  shows "ctx_round d = d"
proof -
  have "(of_int \<bar>coefficient d\<bar> :: rat) < of_int (10 ^ 28)"
    using coef_bound [OF assms(1)] assms(2) by simp
  then have "\<bar>coefficient d\<bar> < 10 ^ 28"
    by (simp only: of_int_less_iff)
  then show ?thesis by (rule ctx_round_exact)
qed


lemma bound_mono: "x' \<le> x \<Longrightarrow> x * 10 ^ s < (B::rat) \<Longrightarrow> x' * 10 ^ s < B"
proof -
  assume "x' \<le> x" and b: "x * 10 ^ s < B"
  then have "x' * 10 ^ s \<le> x * 10 ^ s" by (intro mult_right_mono) simp_all
  then show ?thesis using b by (rule le_less_trans)
qed

lemma scale_exact_add: "scale_ge s a \<Longrightarrow> scale_ge s b \<Longrightarrow> scale_ge s (exact_add a b)"
  by (simp add: scale_ge_def exact_add_def Let_def)

lemma scale_exact_mul_int: "scale_ge s a \<Longrightarrow> scale_ge s (exact_mul a (Decimal_int q))"
  by (simp add: scale_ge_def exact_mul_def Decimal_int_def)

lemma scale_dneg: "scale_ge s a \<Longrightarrow> scale_ge s (dneg a)"
  by (simp add: scale_ge_def dneg_def)

lemma dadd_small:
  assumes "scale_ge s a" and "scale_ge s b" and "\<bar>dval a + dval b\<bar> * 10 ^ s < 10 ^ 28"
  shows "dadd a b = exact_add a b"
  unfolding dadd_def
  using assms(3)
  by (intro ctx_round_small [OF scale_exact_add [OF assms(1,2)]]) (simp add: dval_exact_add)

lemma dsub_small:
  assumes "scale_ge s a" and "scale_ge s b" and "\<bar>dval a - dval b\<bar> * 10 ^ s < 10 ^ 28"
  shows "dsub a b = exact_add a (dneg b)"
  unfolding dsub_def
  using assms(3)
  by (intro ctx_round_small [OF scale_exact_add [OF assms(1) scale_dneg [OF assms(2)]]])
     (simp add: dval_exact_add dval_dneg)

lemma dmul_small:
  assumes "scale_ge s a" and "\<bar>dval a * of_int q\<bar> * 10 ^ s < 10 ^ 28"
  shows "dmul a (Decimal_int q) = exact_mul a (Decimal_int q)"
  unfolding dmul_def
  using assms(2)
  by (intro ctx_round_small [OF scale_exact_mul_int [OF assms(1)]])
     (simp add: dval_exact_mul dval_Decimal_int)

lemma foldl_dadd_small:
  assumes "scale_ge s z" and "\<forall>a \<in> set as. scale_ge s a"
      and "(\<bar>dval z\<bar> + (\<Sum>a \<leftarrow> as. \<bar>dval a\<bar>)) * 10 ^ s < 10 ^ 28"
  shows "dval (foldl dadd z as) = dval z + (\<Sum>a \<leftarrow> as. dval a) \<and> scale_ge s (foldl dadd z as)"
  using assms
proof (induction as arbitrary: z)
  case Nil
  then show ?case by simp
next
  case (Cons a as)
  have nn: "0 \<le> (\<Sum>a \<leftarrow> as. \<bar>dval a\<bar>)"
    by (rule sum_list_nonneg) auto
  have sa: "scale_ge s a" using Cons.prems(2) by simp
  have "\<bar>dval z + dval a\<bar> \<le> \<bar>dval z\<bar> + (\<Sum>a \<leftarrow> a # as. \<bar>dval a\<bar>)"
    using nn by simp
  from bound_mono [OF this Cons.prems(3)]
  have e: "dadd z a = exact_add z a"
    by (rule dadd_small [OF Cons.prems(1) sa])
  have v: "dval (dadd z a) = dval z + dval a"
    by (simp add: e dval_exact_add)
  have sc: "scale_ge s (dadd z a)"
    unfolding e by (rule scale_exact_add [OF Cons.prems(1) sa])
  have "\<bar>dval (dadd z a)\<bar> + (\<Sum>a \<leftarrow> as. \<bar>dval a\<bar>) \<le> \<bar>dval z\<bar> + (\<Sum>a \<leftarrow> a # as. \<bar>dval a\<bar>)"
    by (simp add: v)
  from bound_mono [OF this Cons.prems(3)]
  have b: "(\<bar>dval (dadd z a)\<bar> + (\<Sum>a \<leftarrow> as. \<bar>dval a\<bar>)) * 10 ^ s < 10 ^ 28" .
  have "\<forall>a \<in> set as. scale_ge s a" using Cons.prems(2) by simp
  from Cons.IH [OF sc this b] show ?case
    by (simp add: v)
qed

lemma abs_le_sum_list: "x \<in> set xs \<Longrightarrow> \<bar>f x\<bar> \<le> (\<Sum>y \<leftarrow> xs. \<bar>f y :: rat\<bar>)"
proof (induction xs)
  case Nil
  then show ?case by simp
next
  case (Cons y ys)
  have nn: "0 \<le> (\<Sum>y \<leftarrow> ys. \<bar>f y\<bar>)"
    by (rule sum_list_nonneg) auto
  from Cons show ?case
  proof (cases "x = y")
    case True
    then show ?thesis using nn by simp
  next
    case False
    with Cons have "\<bar>f x\<bar> \<le> (\<Sum>y \<leftarrow> ys. \<bar>f y\<bar>)" by simp
    then show ?thesis by simp
  qed
qed

lemma dval_dec_or: "dval (dec_or (UnitPrice i) Decimal_0_0) = price_value i"
  by (auto simp: dec_or_def price_value_def Decimal_0_0_def dval_def split: option.splits)

lemma int_or_quantity: "int_or (Quantity i) 0 = quantity_value i"
  by (auto simp: int_or_def quantity_value_def split: option.splits)

lemma scale_dec_or:
  "1 \<le> s \<Longrightarrow> (case UnitPrice i of None \<Rightarrow> True | Some p \<Rightarrow> scale_ge s p)
     \<Longrightarrow> scale_ge s (dec_or (UnitPrice i) Decimal_0_0)"
  by (auto simp: dec_or_def Decimal_0_0_def scale_ge_def split: option.splits)

lemma line_amount_small:
  assumes "1 \<le> s" and "case UnitPrice i of None \<Rightarrow> True | Some p \<Rightarrow> scale_ge s p"
      and "\<bar>line_value i\<bar> * 10 ^ s < 10 ^ 28"
  shows "dval (line_amount i) = line_value i \<and> scale_ge s (line_amount i)"
proof -
  let ?p = "dec_or (UnitPrice i) Decimal_0_0"
  have sp: "scale_ge s ?p" by (rule scale_dec_or [OF assms(1,2)])
  have "\<bar>dval ?p * of_int (quantity_value i)\<bar> * 10 ^ s < 10 ^ 28"
    using assms(3) by (simp add: line_value_def dval_dec_or)
  from dmul_small [OF sp this]
  have e: "line_amount i = exact_mul ?p (Decimal_int (quantity_value i))"
    by (simp add: line_amount_def int_or_quantity)
  show ?thesis
    unfolding e
    by (simp add: dval_exact_mul dval_Decimal_int dval_dec_or line_value_def scale_exact_mul_int [OF sp])
qed

section \<open>Closing a session that is not active\<close>

lemma close_session_inactive:
  assumes "active_session d (sessionId request) = None"
  shows "close_session now request u d =
           (if role_in u [''admin'', ''manager'', ''cashier'']
            then (Inl (HTTPException 500 ''An error occurred while closing the session.''), d)
            else (Inl (HTTPException 403 ''Permission denied.''), d))"
  using assms by (simp add: close_session_def close_session_try_def)

lemma close_session_failure_keeps_store:
  "fst (close_session now request u d) = Inl e \<Longrightarrow> snd (close_session now request u d) = d"
  by (auto simp: close_session_def split: if_splits sum.splits prod.splits)

text \<open>
  C3. Closing a session id that is absent (99) or already closed (1) leaves the store
  as it is, but the answer is status 500, not the 404 that step 1 raises: the handler
  of the endpoint catches the \<open>HTTPException\<close> and replaces it.
\<close>

theorem close_session_not_active_yields_500:
  "close_session 95000 \<lparr> sessionId = 99, cashCounts = [] \<rparr> ann store0
     = (Inl (HTTPException 500 ''An error occurred while closing the session.''), store0)
   \<and> close_session 95000 \<lparr> sessionId = 1, cashCounts = [] \<rparr> ann store0
     = (Inl (HTTPException 500 ''An error occurred while closing the session.''), store0)"
  by (simp add: close_session_def close_session_try_def active_session_def store0_def ann_def role_in_def)

section \<open>Closing an active session\<close>

lemma close_session_active:
  assumes "role_in u [''admin'', ''manager'', ''cashier'']"
      and "active_session d (sessionId request) = Some session_row"
  shows "close_session now request u d
      = (Inr [(''message'', JStr ''Session closed successfully''), (''sessionId'', JInt (sessionId request))],
         d\<lparr> CashierSessions :=
              map (close_row now (count_cash (Decimal_int 0) (cashCounts request))
                     (cash_sales_since d (cs_CashierName session_row) (cs_SessionStart session_row))
                     (sessionId request))
                  (CashierSessions d) \<rparr>)"
  using assms by (simp add: close_session_def close_session_try_def Let_def)

lemma closed_row_fields:
  "cs_SessionID c = sid \<Longrightarrow>
     cs_Status (close_row now cc cs sid c) = ''Closed'' \<and> cs_SessionEnd (close_row now cc cs sid c) = Some now
     \<and> cs_ClosingCash (close_row now cc cs sid c) = Some cc
     \<and> cs_CashSalesAtClose (close_row now cc cs sid c) = Some cs"
  by (simp add: close_row_def)

lemma expected_cash_value:
  "dval (cash_sales_since d cashier start)
     = (\<Sum>s \<leftarrow> filter (\<lambda>s. s_CashierName s = cashier \<and> s_PaymentMethod s = ''Cash''
                             \<and> s_Status s = ''completed'' \<and> start \<le> s_CreatedAt s) (Sales d).
          \<Sum>si \<leftarrow> filter (\<lambda>si. s_SaleID s = si_SaleID si) (SaleItems d).
             dval (si_UnitPrice si) * of_int (si_Quantity si))"
  by (simp add: cash_sales_since_def dval_sql_sum_isnull map_concat o_def dval_exact_mul
        dval_Decimal_int sum_list_concat)

lemma count_cash_710:
  "count_cash (Decimal_int 0) [(''bills500'', 1), (''bills100'', 2), (''coins10'', 1)] = Dec 710 0"
  by code_simp

lemma count_cash_cents10:
  "count_cash (Decimal_int 0) [(''cents10'', 1)] = Dec 1000000000000000055511151231 (- 28)"
  by code_simp

lemma denomination_exact:
  assumes "map_of denominations key = Some v" and "key \<noteq> ''cents10''" and "key \<noteq> ''cents05''"
  shows "dval (Decimal_num v) = denomination_value key \<and> scale_ge 2 (Decimal_num v)"
  using assms
  by (auto simp: denominations_def denomination_value_def Decimal_num_def Decimal_int_def
        Decimal_float_def dval_def scale_ge_def split: if_splits)

lemma denomination_unknown: "map_of denominations key = None \<Longrightarrow> denomination_value key = 0"
  by (auto simp: denominations_def denomination_value_def split: if_splits)

lemma count_cash_exact_from:
  assumes "scale_ge 2 z"
      and "\<forall>e \<in> set cc. fst e \<noteq> ''cents10'' \<and> fst e \<noteq> ''cents05''"
      and "(\<bar>dval z\<bar> + (\<Sum>e \<leftarrow> cc. \<bar>denomination_value (fst e) * of_int (snd e)\<bar>)) * 10 ^ 2 < 10 ^ 28"
  shows "dval (count_cash z cc) = dval z + counted_sum cc"
  using assms
proof (induction cc arbitrary: z)
  case Nil
  then show ?case by (simp add: counted_sum_def)
next
  case (Cons e cc)
  obtain key cnt where e: "e = (key, cnt)" by (cases e)
  have nn: "0 \<le> (\<Sum>e \<leftarrow> cc. \<bar>denomination_value (fst e) * of_int (snd e)\<bar>)"
    by (rule sum_list_nonneg) auto
  have rest: "\<forall>e \<in> set cc. fst e \<noteq> ''cents10'' \<and> fst e \<noteq> ''cents05''"
    using Cons.prems(2) by simp
  show ?case
  proof (cases "map_of denominations key")
    case None
    have "\<bar>dval z\<bar> + (\<Sum>e \<leftarrow> cc. \<bar>denomination_value (fst e) * of_int (snd e)\<bar>)
        \<le> \<bar>dval z\<bar> + (\<Sum>e \<leftarrow> e # cc. \<bar>denomination_value (fst e) * of_int (snd e)\<bar>)"
      by simp
    from bound_mono [OF this Cons.prems(3)] Cons.IH [OF Cons.prems(1) rest]
    have "dval (count_cash z cc) = dval z + counted_sum cc" by blast
    then show ?thesis
      using None by (simp add: e counted_sum_def denomination_unknown)
  next
    case (Some v)
    have k: "key \<noteq> ''cents10''" "key \<noteq> ''cents05''"
      using Cons.prems(2) by (simp_all add: e)
    from denomination_exact [OF Some k]
    have dv: "dval (Decimal_num v) = denomination_value key" and sv: "scale_ge 2 (Decimal_num v)"
      by blast+
    let ?t = "denomination_value key * of_int cnt"
    have "\<bar>?t\<bar> \<le> \<bar>dval z\<bar> + (\<Sum>e \<leftarrow> e # cc. \<bar>denomination_value (fst e) * of_int (snd e)\<bar>)"
      using nn by (simp add: e)
    from bound_mono [OF this Cons.prems(3)]
    have "\<bar>dval (Decimal_num v) * of_int cnt\<bar> * 10 ^ 2 < 10 ^ 28"
      by (simp only: dv)
    from dmul_small [OF sv this]
    have m: "dmul (Decimal_num v) (Decimal_int cnt) = exact_mul (Decimal_num v) (Decimal_int cnt)" .
    have mv: "dval (dmul (Decimal_num v) (Decimal_int cnt)) = ?t"
      by (simp add: m dval_exact_mul dval_Decimal_int dv)
    have ms: "scale_ge 2 (dmul (Decimal_num v) (Decimal_int cnt))"
      unfolding m by (rule scale_exact_mul_int [OF sv])
    let ?z = "dadd z (dmul (Decimal_num v) (Decimal_int cnt))"
    have "\<bar>dval z + dval (dmul (Decimal_num v) (Decimal_int cnt))\<bar>
        \<le> \<bar>dval z\<bar> + (\<Sum>e \<leftarrow> e # cc. \<bar>denomination_value (fst e) * of_int (snd e)\<bar>)"
      using nn by (simp add: e mv)
    from bound_mono [OF this Cons.prems(3)]
    have a: "?z = exact_add z (dmul (Decimal_num v) (Decimal_int cnt))"
      by (rule dadd_small [OF Cons.prems(1) ms])
    have zv: "dval ?z = dval z + ?t"
      by (simp add: a dval_exact_add mv)
    have zs: "scale_ge 2 ?z"
      unfolding a by (rule scale_exact_add [OF Cons.prems(1) ms])
    have "\<bar>dval ?z\<bar> + (\<Sum>e \<leftarrow> cc. \<bar>denomination_value (fst e) * of_int (snd e)\<bar>)
        \<le> \<bar>dval z\<bar> + (\<Sum>e \<leftarrow> e # cc. \<bar>denomination_value (fst e) * of_int (snd e)\<bar>)"
      by (simp add: zv e)
    from bound_mono [OF this Cons.prems(3)] Cons.IH [OF zs rest]
    have "dval (count_cash ?z cc) = dval ?z + counted_sum cc" by blast
    then show ?thesis
      using Some by (simp add: e zv counted_sum_def)
  qed
qed

lemma count_cash_exact:
  assumes "\<forall>e \<in> set cc. fst e \<noteq> ''cents10'' \<and> fst e \<noteq> ''cents05''"
      and "(\<Sum>e \<leftarrow> cc. \<bar>denomination_value (fst e) * of_int (snd e)\<bar>) * 10 ^ 2 < 10 ^ 28"
  shows "dval (count_cash (Decimal_int 0) cc) = counted_sum cc"
proof -
  have z: "scale_ge 2 (Decimal_int 0)" "dval (Decimal_int 0) = 0"
    by (simp_all add: scale_ge_def Decimal_int_def dval_def)
  have "(\<bar>dval (Decimal_int 0)\<bar> + (\<Sum>e \<leftarrow> cc. \<bar>denomination_value (fst e) * of_int (snd e)\<bar>)) * 10 ^ 2 < 10 ^ 28"
    using assms(2) by (simp add: z(2))
  from count_cash_exact_from [OF z(1) assms(1) this] show ?thesis
    by (simp add: z(2))
qed

text \<open>
  C4. The close of an active session sets the status, the end time, the expected cash
  (lemma \<open>expected_cash_value\<close>) and the counted cash as claimed, unrecognized keys
  are ignored, and the counted cash is the sum of value times count for every
  denomination but two (lemma \<open>count_cash_exact\<close>); the claim's example yields 710.
  For \<open>cents10\<close> and \<open>cents05\<close> it is not: the table holds them as binary
  floats, \<open>Decimal(0.10)\<close> is not one tenth, and one 10-centavo coin is persisted
  as \<open>0.1000000000000000055511151231\<close>.
\<close>

theorem close_session_cents10:
  "\<exists>c. find (\<lambda>c. cs_SessionID c = 2)
           (CashierSessions (snd (close_session 95000 \<lparr> sessionId = 2, cashCounts = [(''cents10'', 1)] \<rparr> ann store0)))
         = Some c
       \<and> cs_Status c = ''Closed''
       \<and> cs_ClosingCash c = Some (Dec 1000000000000000055511151231 (- 28))
       \<and> dval (Dec 1000000000000000055511151231 (- 28)) \<noteq> 1 / 10"
proof -
  have r: "role_in ann [''admin'', ''manager'', ''cashier'']"
    by (simp add: role_in_def ann_def)
  have a: "active_session store0 (sessionId \<lparr> sessionId = 2, cashCounts = [(''cents10'', 1)] \<rparr>)
      = Some (CashierSessions store0 ! 1)"
    by (simp add: active_session_def store0_def)
  have v: "dval (Dec 1000000000000000055511151231 (- 28)) \<noteq> 1 / 10"
    by (simp add: dval_def)
  show ?thesis
    unfolding close_session_active [OF r a]
    using v by (simp add: count_cash_cents10 close_row_def store0_def del: count_cash.simps)
qed

section \<open>Starting a session\<close>

lemma fold_max_ge: "a \<le> fold max xs (a::int)"
  by (induction xs arbitrary: a) (auto intro: order_trans [OF max.cobounded2])

lemma fold_max_mem: "x \<in> set xs \<Longrightarrow> x \<le> fold max xs (a::int)"
proof (induction xs arbitrary: a)
  case Nil
  then show ?case by simp
next
  case (Cons y ys)
  show ?case
  proof (cases "x = y")
    case True
    have "y \<le> max y a" by simp
    also have "\<dots> \<le> fold max ys (max y a)" by (rule fold_max_ge)
    finally show ?thesis using True by simp
  next
    case False
    with Cons show ?thesis by simp
  qed
qed

lemma fresh_id_new: "fresh_id ids \<notin> set ids"
proof
  assume "fresh_id ids \<in> set ids"
  then have "fresh_id ids \<le> fold max ids 0" by (rule fold_max_mem)
  then show False by (simp add: fresh_id_def)
qed

lemma has_active_after_insert: "has_active_session (insert_session now c cash d) c"
  by (simp add: has_active_session_def insert_session_def)

lemma start_session_conflict:
  assumes "role_in u [''cashier'', ''manager'', ''admin'']" and "username u = Some c" and "c \<noteq> []"
      and "\<not> float_negative cash" and "has_active_session d c"
  shows "start_session now cash u d
           = (Inl (HTTPException 409 ''An active session already exists for this cashier.''), d)"
  using assms by (simp add: start_session_def)

text \<open>
  C8, as the claim states it, fails: the answer to a successful start is a message
  only. Bob has no session in the example store; his start succeeds, the new row gets
  the fresh id 3, and the response does not carry it.
\<close>

theorem start_session_answers_message_only:
  "fst (start_session 95000 (Float 500 0) bob store0)
     = Inr [(''message'', JStr (''Cashier session for '' @ [CHR 0x27] @ ''bob'' @ [CHR 0x27] @ '' started successfully.''))]
   \<and> map cs_SessionID (CashierSessions (snd (start_session 95000 (Float 500 0) bob store0))) = [1, 2, 3]"
  by (simp add: start_session_def bob_def store0_def role_in_def float_negative_def
        has_active_session_def insert_session_def fresh_id_def)

text \<open>
  C8, amended. For a caller with a permitted role, a username and a non-negative
  initial cash who has no active session, the start succeeds: it answers with a
  message and appends one session row for the cashier, \<open>Active\<close>, with an id that no
  row of the table had. While that cashier has an active session, in the resulting
  store or any other, a further start answers 409 and leaves the store as it is.
\<close>

theorem start_session_then_conflict:
  assumes "role_in u [''cashier'', ''manager'', ''admin'']" and "username u = Some c" and "c \<noteq> []"
      and "\<not> float_negative cash" and "\<not> float_negative cash'"
      and "\<not> has_active_session d c"
  shows "\<exists>msg new. start_session now cash u d = (Inr [(''message'', JStr msg)], d\<lparr> CashierSessions := CashierSessions d @ [new] \<rparr>)
           \<and> cs_SessionID new \<notin> set (map cs_SessionID (CashierSessions d))
           \<and> cs_CashierName new = c \<and> cs_Status new = ''Active'' \<and> cs_SessionStart new = now
           \<and> start_session now' cash' u (snd (start_session now cash u d))
               = (Inl (HTTPException 409 ''An active session already exists for this cashier.''),
                  snd (start_session now cash u d))"
proof -
  let ?new = "\<lparr> cs_SessionID = fresh_id (map cs_SessionID (CashierSessions d)),
                cs_CashierName = c, cs_InitialCash = cash, cs_Status = ''Active'',
                cs_SessionStart = now, cs_SessionEnd = None,
                cs_ClosingCash = None, cs_CashSalesAtClose = None \<rparr>"
  have first: "start_session now cash u d
      = (Inr [(''message'', JStr (''Cashier session for '' @ [CHR 0x27] @ c @ [CHR 0x27] @ '' started successfully.''))],
         insert_session now c cash d)"
    using assms by (simp add: start_session_def)
  have store: "insert_session now c cash d = d\<lparr> CashierSessions := CashierSessions d @ [?new] \<rparr>"
    by (simp add: insert_session_def)
  have fresh: "cs_SessionID ?new \<notin> set (map cs_SessionID (CashierSessions d))"
    using fresh_id_new [of "map cs_SessionID (CashierSessions d)"] by simp
  have again: "start_session now' cash' u (insert_session now c cash d)
      = (Inl (HTTPException 409 ''An active session already exists for this cashier.''),
         insert_session now c cash d)"
    using assms(1-3,5) has_active_after_insert by (rule start_session_conflict)
  show ?thesis
    using first store fresh again by (intro exI [of _ ?new] exI) auto
qed

theorem start_session_then_conflict_witness:
  "role_in bob [''cashier'', ''manager'', ''admin''] \<and> username bob = Some ''bob''
   \<and> \<not> float_negative (Float 500 0) \<and> \<not> has_active_session store0 ''bob''
   \<and> start_session 96000 (Float 0 0) bob (snd (start_session 95000 (Float 500 0) bob store0))
       = (Inl (HTTPException 409 ''An active session already exists for this cashier.''),
          snd (start_session 95000 (Float 500 0) bob store0))"
proof -
  have h: "role_in bob [''cashier'', ''manager'', ''admin'']" "username bob = Some ''bob''"
      "''bob'' \<noteq> []" "\<not> float_negative (Float 500 0)" "\<not> float_negative (Float 0 0)"
      "\<not> has_active_session store0 ''bob''"
    by (simp_all add: role_in_def bob_def float_negative_def has_active_session_def store0_def)
  from start_session_then_conflict [OF h, of 95000 96000] h show ?thesis by blast
qed

section \<open>Cancelling without a manager\<close>

text \<open>
  C7. A status update to \<open>cancelled\<close> whose payload lacks the manager username is
  rejected, with no write to the store, no restock call and nothing logged. A caller
  with a permitted role gets status 400 (for the order id's format, or for the missing
  manager); the role gate, which comes first, answers 403 to any other caller.
\<close>

theorem cancel_without_manager_rejected:
  assumes "newStatus request = Cancelled" and "lacks_manager request"
  shows "\<exists>msg. update_order_status now py_int post order_id request u d
           = (Inl (HTTPException (if role_in u [''admin'', ''manager'', ''staff'', ''cashier''] then 400 else 403) msg),
              d, \<lparr> posted = [], logged = [] \<rparr>)"
  using assms
  by (auto simp: update_order_status_def lacks_manager_def Let_def split: option.splits)

theorem cancel_without_manager_rejected_witness:
  "newStatus \<lparr> newStatus = Cancelled, cancelDetails = None \<rparr> = Cancelled
   \<and> lacks_manager \<lparr> newStatus = Cancelled, cancelDetails = None \<rparr>
   \<and> (\<exists>msg. update_order_status 95000 int_of_text post_ok ''SO-2''
                \<lparr> newStatus = Cancelled, cancelDetails = None \<rparr> ann store0
              = (Inl (HTTPException 400 msg), store0, \<lparr> posted = [], logged = [] \<rparr>))"
  using cancel_without_manager_rejected
          [of "\<lparr> newStatus = Cancelled, cancelDetails = None \<rparr>" 95000 int_of_text post_ok "''SO-2''" ann store0]
  by (simp add: lacks_manager_def role_in_def ann_def)

section \<open>Cancelling an order\<close>

text \<open>
  C6. A cancellation that succeeds on an order with at least one line item answers
  with the success message and leaves the committed store (status \<open>cancelled\<close>, one
  more cancellation record), whatever the two restock calls return: an exception of
  the transport or a response with any status code only adds a log line. Both calls are
  posted, with the same payload, after the commit. (That the two calls run
  concurrently is not expressed in this sequential model.)
\<close>

theorem restock_failure_keeps_cancellation:
  assumes "role_in u [''admin'', ''manager'', ''staff'', ''cashier'']"
      and "py_int (last_segment order_id) = Some k"
      and "newStatus request = Cancelled"
      and "cancelDetails request = Some details" and "managerUsername details \<noteq> []"
      and "rowcount d k \<noteq> 0" and "restock_rows d k \<noteq> []"
  shows "update_order_status now py_int post order_id request u d
      = (Inr [(''message'', JStr ''Order has been cancelled and inventory restock initiated.'')],
         d\<lparr> Sales := map (set_status now ''cancelled'' k) (Sales d),
            CancelledOrders := CancelledOrders d @
              [\<lparr> co_SaleID = k, co_ManagerUsername = managerUsername details, co_CancelledAt = now \<rparr>] \<rparr>,
         \<lparr> posted = [(ingredients_url, restock_rows d k), (materials_url, restock_rows d k)],
           logged = restock_log ''Ingredients'' order_id (post ingredients_url (restock_rows d k))
                  @ restock_log ''Materials'' order_id (post materials_url (restock_rows d k)) \<rparr>)"
  using assms by (simp add: update_order_status_def cancel_try_def Let_def)

theorem restock_failure_keeps_cancellation_witness:
  "role_in ann [''admin'', ''manager'', ''staff'', ''cashier'']
   \<and> int_of_text (last_segment ''SO-2'') = Some 2
   \<and> rowcount store0 2 \<noteq> 0 \<and> restock_rows store0 2 \<noteq> []
   \<and> fst (update_order_status 95000 int_of_text post_down ''SO-2'' (cancel_by ''meg'') ann store0)
       = Inr [(''message'', JStr ''Order has been cancelled and inventory restock initiated.'')]
   \<and> map s_Status (Sales (fst (snd (update_order_status 95000 int_of_text post_down ''SO-2'' (cancel_by ''meg'') ann store0))))
       = [''completed'', ''cancelled'', ''completed'']
   \<and> length (logged (snd (snd (update_order_status 95000 int_of_text post_down ''SO-2'' (cancel_by ''meg'') ann store0)))) = 2"
proof -
  have h: "role_in ann [''admin'', ''manager'', ''staff'', ''cashier'']"
      "int_of_text (last_segment ''SO-2'') = Some 2"
      "newStatus (cancel_by ''meg'') = Cancelled"
      "cancelDetails (cancel_by ''meg'') = Some \<lparr> managerUsername = ''meg'' \<rparr>"
      "managerUsername \<lparr> managerUsername = ''meg'' \<rparr> \<noteq> []"
      "rowcount store0 2 \<noteq> 0" "restock_rows store0 2 \<noteq> []"
    by (simp_all add: role_in_def ann_def int_of_text_def last_segment_def cancel_by_def
          rowcount_def restock_rows_def store0_def)
  have sales: "map s_Status (map (set_status 95000 ''cancelled'' 2) (Sales store0))
      = [''completed'', ''cancelled'', ''completed'']"
    by (simp add: store0_def set_status_def)
  show ?thesis
    using h sales
    by (simp add: restock_failure_keeps_cancellation
            [where py_int = int_of_text and post = post_down and now = 95000, OF h]
          restock_log_def post_down_def)
qed

section \<open>Cancellation records\<close>

lemma SaleID_set_status [simp]: "s_SaleID (set_status now st k s) = s_SaleID s"
  by (simp add: set_status_def)

lemma rowcount_set_status [simp]:
  "rowcount (d\<lparr> Sales := map (set_status now st k) (Sales d) \<rparr>) j = rowcount d j"
  "rowcount (d\<lparr> Sales := map (set_status now st k) (Sales d), CancelledOrders := cs \<rparr>) j = rowcount d j"
  by (simp_all add: rowcount_def filter_map o_def)

lemma update_step_records:
  "CancelledOrders (fst (snd (update_order_status (su_now x) py_int post (su_order_id x) (su_request x) (su_user x) d)))
     = CancelledOrders d @
       (case py_int (last_segment (su_order_id x)) of
          None \<Rightarrow> []
        | Some k \<Rightarrow> if cancels py_int d k x
                    then [\<lparr> co_SaleID = k, co_ManagerUsername = managerUsername (the (cancelDetails (su_request x))),
                            co_CancelledAt = su_now x \<rparr>]
                    else [])"
  by (auto simp: update_order_status_def cancel_try_def cancels_def lacks_manager_def Let_def
           split: option.splits)

lemma update_step_rowcount:
  "rowcount (fst (snd (update_order_status now py_int post order_id request u d))) j = rowcount d j"
  by (auto simp: update_order_status_def cancel_try_def Let_def split: option.splits)

lemma update_step_count:
  "length (records_of (fst (snd (update_order_status (su_now x) py_int post (su_order_id x) (su_request x) (su_user x) d))) k)
     = length (records_of d k) + (if cancels py_int d k x then 1 else 0)"
  unfolding records_of_def update_step_records
  by (auto simp: cancels_def split: option.splits)

lemma cancels_step:
  "cancels py_int (fst (snd (update_order_status now py_int post order_id request u d))) k x = cancels py_int d k x"
  by (simp add: cancels_def update_step_rowcount)

text \<open>
  C5, as the claim states it, fails: nothing in \<open>update_order_status\<close> looks for an
  earlier cancellation. Two cancellation requests for order 2 leave two Cancellation
  Records for it.
\<close>

theorem repeated_cancellation_two_records:
  "map co_SaleID (CancelledOrders (run_updates int_of_text post_ok store0
      [\<lparr> su_now = 95000, su_order_id = ''SO-2'', su_request = cancel_by ''meg'', su_user = ann \<rparr>,
       \<lparr> su_now = 95100, su_order_id = ''SO-2'', su_request = cancel_by ''meg'', su_user = ann \<rparr>]))
   = [2, 2]"
  by (simp add: update_order_status_def cancel_try_def cancel_by_def ann_def role_in_def
        last_segment_def int_of_text_def rowcount_def store0_def restock_rows_def Let_def)

text \<open>
  C5, amended. Cancellation Records are created by successful cancellation requests
  only, one per request: after any sequence of status updates, the number of records
  of order \<open>k\<close> is the number before plus the number of requests of the sequence that
  cancel \<open>k\<close> successfully. So an order has at most one record as long as it is
  cancelled at most once, and a repeated cancellation adds another.
\<close>

theorem cancellation_records_count:
  "length (records_of (run_updates py_int post d xs) k)
     = length (records_of d k) + length (filter (cancels py_int d k) xs)"
proof (induction xs arbitrary: d)
  case Nil
  show ?case by simp
next
  case (Cons x xs)
  let ?d' = "fst (snd (update_order_status (su_now x) py_int post (su_order_id x) (su_request x) (su_user x) d))"
  have "cancels py_int ?d' k = cancels py_int d k"
    by (rule ext) (rule cancels_step)
  then have "length (records_of (run_updates py_int post ?d' xs) k)
      = length (records_of ?d' k) + length (filter (cancels py_int d k) xs)"
    using Cons.IH [of ?d'] by simp
  then show ?case
    by (simp add: update_step_count)
qed

section \<open>Top products of the day\<close>

lemma top_products_length: "length (top_products_query now c d) \<le> 10"
  by (simp add: top_products_query_def)

lemma top_products_sorted:
  "sorted_wrt (\<lambda>a b. snd b \<le> snd a) (top_products_query now c d)"
proof -
  let ?gs = "group_quantities (todays_items now c d)"
  have "sorted (map (\<lambda>g. - snd g) (sort_key (\<lambda>g. - snd g) ?gs))"
    by (rule sorted_sort_key)
  then have "sorted_wrt (\<lambda>a b. snd b \<le> snd a) (sort_key (\<lambda>g. - snd g) ?gs)"
    by (simp add: sorted_wrt_map)
  then show ?thesis
    unfolding top_products_query_def by (rule sorted_wrt_take)
qed

lemma top_products_distinct: "distinct (map fst (top_products_query now c d))"
proof -
  have "distinct (map fst (group_quantities its))" for its
    by (simp add: group_quantities_def o_def)
  then have "distinct (map fst (sort_key (\<lambda>g. - snd g) (group_quantities its)))" for its
    by (metis distinct_map distinct_sort set_sort)
  then show ?thesis
    unfolding top_products_query_def by (simp add: take_map [symmetric] distinct_take)
qed

lemma top_products_entries:
  assumes "(n, q) \<in> set (top_products_query now c d)"
  shows "q = sum_list (map si_Quantity (filter (\<lambda>si. si_ItemName si = n) (todays_items now c d)))
       \<and> n \<in> si_ItemName ` set (todays_items now c d)"
proof -
  have "(n, q) \<in> set (group_quantities (todays_items now c d))"
    using assms unfolding top_products_query_def by (auto dest: in_set_takeD)
  then show ?thesis by (auto simp: group_quantities_def)
qed

lemma todays_items_iff:
  "si \<in> set (todays_items now c d) \<longleftrightarrow>
     si \<in> set (SaleItems d) \<and>
     (\<exists>s \<in> set (Sales d). s_SaleID s = si_SaleID si \<and> s_Status s = ''completed''
        \<and> s_CashierName s = c \<and> date_of (s_CreatedAt s) = date_of now)"
  by (auto simp: todays_items_def)

text \<open>
  C9, as the claim states it, fails on products with equal totals: both are returned,
  so the quantities are not strictly descending.
\<close>

theorem top_products_tie:
  "\<exists>ps. get_top_products_today 95000 \<lparr> tpr_cashierName = ''ann'' \<rparr> ann store_tie = Inr ps
        \<and> map tp_name ps = [''Latte'', ''Bagel''] \<and> map tp_sales ps = [2, 2]
        \<and> \<not> sorted_wrt (\<lambda>a b. tp_sales b < tp_sales a) ps"
  by (simp add: get_top_products_today_def top_products_query_def group_quantities_def
        todays_items_def store_tie_def store0_def ann_def role_in_def date_of_def)

text \<open>
  C9, amended. For a caller with a permitted role, the top-products query returns at
  most 10 entries, one per item name, in descending order of the summed quantity (not
  strictly: equal sums may follow each other), and every entry's quantity is the sum
  over the items of that name in the completed sales of that cashier dated today.
\<close>

theorem top_products_descending:
  assumes "role_in u [''admin'', ''manager'', ''cashier'']"
  shows "\<exists>ps. get_top_products_today now request u d = Inr ps
           \<and> length ps \<le> 10
           \<and> sorted_wrt (\<lambda>a b. tp_sales b \<le> tp_sales a) ps
           \<and> distinct (map tp_name ps)
           \<and> (\<forall>p \<in> set ps.
                 tp_name p \<in> si_ItemName ` set (todays_items now (tpr_cashierName request) d)
               \<and> tp_sales p = sum_list (map si_Quantity
                     (filter (\<lambda>si. si_ItemName si = tp_name p)
                             (todays_items now (tpr_cashierName request) d))))"
proof -
  let ?q = "top_products_query now (tpr_cashierName request) d"
  let ?ps = "map (\<lambda>g. \<lparr> tp_name = fst g, tp_sales = snd g \<rparr>) ?q"
  have res: "get_top_products_today now request u d = Inr ?ps"
    using assms by (simp add: get_top_products_today_def)
  have len: "length ?ps \<le> 10"
    using top_products_length [of now "tpr_cashierName request" d] by simp
  have srt: "sorted_wrt (\<lambda>a b. tp_sales b \<le> tp_sales a) ?ps"
    using top_products_sorted [of now "tpr_cashierName request" d] by (simp add: sorted_wrt_map)
  have dst: "distinct (map tp_name ?ps)"
    using top_products_distinct [of now "tpr_cashierName request" d] by (simp add: o_def)
  have ent: "tp_name p \<in> si_ItemName ` set (todays_items now (tpr_cashierName request) d)
       \<and> tp_sales p = sum_list (map si_Quantity
             (filter (\<lambda>si. si_ItemName si = tp_name p) (todays_items now (tpr_cashierName request) d)))"
    if "p \<in> set ?ps" for p
  proof -
    from that obtain g where g: "g \<in> set ?q" and p: "p = \<lparr> tp_name = fst g, tp_sales = snd g \<rparr>"
      by auto
    from g have "(fst g, snd g) \<in> set ?q" by simp
    from top_products_entries [OF this] p show ?thesis by simp
  qed
  show ?thesis
    using res len srt dst ent by blast
qed

theorem top_products_descending_witness:
  "role_in ann [''admin'', ''manager'', ''cashier'']
   \<and> (\<exists>ps. get_top_products_today 95000 \<lparr> tpr_cashierName = ''ann'' \<rparr> ann store0 = Inr ps
           \<and> length ps \<le> 10 \<and> sorted_wrt (\<lambda>a b. tp_sales b \<le> tp_sales a) ps)
   \<and> get_top_products_today 95000 \<lparr> tpr_cashierName = ''ann'' \<rparr> ann store0
       = Inr [\<lparr> tp_name = ''Latte'', tp_sales = 2 \<rparr>, \<lparr> tp_name = ''Bagel'', tp_sales = 1 \<rparr>]"
proof -
  have h: "role_in ann [''admin'', ''manager'', ''cashier'']"
    by (simp add: role_in_def ann_def)
  have v: "get_top_products_today 95000 \<lparr> tpr_cashierName = ''ann'' \<rparr> ann store0
       = Inr [\<lparr> tp_name = ''Latte'', tp_sales = 2 \<rparr>, \<lparr> tp_name = ''Bagel'', tp_sales = 1 \<rparr>]"
    by (simp add: get_top_products_today_def top_products_query_def group_quantities_def
          todays_items_def store0_def ann_def role_in_def date_of_def)
  from top_products_descending [OF h, of 95000 "\<lparr> tpr_cashierName = ''ann'' \<rparr>" store0]
  have "\<exists>ps. get_top_products_today 95000 \<lparr> tpr_cashierName = ''ann'' \<rparr> ann store0 = Inr ps
           \<and> length ps \<le> 10 \<and> sorted_wrt (\<lambda>a b. tp_sales b \<le> tp_sales a) ps"
    by blast
  with h v show ?thesis by blast
qed

section \<open>Processing orders of a caller who is neither admin nor manager\<close>

lemma processing_rows_param:
  "\<not> role_in u [''admin'', ''manager''] \<Longrightarrow> processing_rows c1 u d = processing_rows c2 u d"
  by (simp add: processing_rows_def)

lemma left_join_own:
  assumes "s \<in> set (Sales d)" and "Some (s_CashierName s) = username u"
  shows "left_join (own_sales u d) s = left_join d s"
proof -
  have "filter (\<lambda>si. s_SaleID s = si_SaleID si) (SaleItems (own_sales u d))
      = filter (\<lambda>si. s_SaleID s = si_SaleID si) (SaleItems d)"
  proof -
    have "s_SaleID s \<in> s_SaleID ` {x \<in> set (Sales d). Some (s_CashierName x) = username u}"
      using assms by blast
    then show ?thesis
      by (auto simp: own_sales_def Let_def intro!: filter_cong)
  qed
  then show ?thesis by (simp add: left_join_def)
qed

lemma processing_rows_own:
  assumes "\<not> role_in u [''admin'', ''manager'']"
  shows "processing_rows c u (own_sales u d) = processing_rows c u d"
proof (cases "username u")
  case None
  then show ?thesis using assms by (simp add: processing_rows_def)
next
  case (Some x)
  let ?P = "\<lambda>s. s_Status s \<in> {''processing'', ''completed'', ''cancelled''} \<and> s_CashierName s = x"
  let ?srt = "sort_key (\<lambda>s. (s_CreatedAt s, s_SaleID s)) (filter ?P (Sales d))"
  have sel: "filter ?P (Sales (own_sales u d)) = filter ?P (Sales d)"
    using Some by (auto simp: own_sales_def Let_def intro!: filter_cong)
  have "left_join (own_sales u d) s = left_join d s" if "s \<in> set ?srt" for s
    using that Some by (intro left_join_own) auto
  then have m: "map (left_join (own_sales u d)) ?srt = map (left_join d) ?srt"
    by (intro map_cong refl)
  have pr: "processing_rows c u e = concat (map (left_join e) (sort_key (\<lambda>s. (s_CreatedAt s, s_SaleID s)) (filter ?P (Sales e))))" for e
    using assms Some by (simp add: processing_rows_def)
  have "processing_rows c u (own_sales u d)
      = concat (map (left_join (own_sales u d)) (sort_key (\<lambda>s. (s_CreatedAt s, s_SaleID s)) (filter ?P (Sales (own_sales u d)))))"
    by (rule pr)
  also have "\<dots> = concat (map (left_join (own_sales u d)) ?srt)"
    by (simp only: sel)
  also have "\<dots> = concat (map (left_join d) ?srt)"
    by (simp only: m)
  also have "\<dots> = processing_rows c u d"
    by (rule pr [symmetric])
  finally show ?thesis .
qed

text \<open>
  C10. For a caller whose role is neither admin nor manager, the answer of the
  processing-orders operation does not depend on the \<open>cashierName\<close> parameter, and it
  is the answer computed on the store cut down to the caller's own sales.
\<close>

theorem processing_orders_own_sales_only:
  assumes "\<not> role_in u [''admin'', ''manager'']"
  shows "get_processing_orders c1 u d = get_processing_orders c2 u d
       \<and> get_processing_orders c1 u d = get_processing_orders c1 u (own_sales u d)"
  using processing_rows_param [OF assms, of c1 d c2] processing_rows_own [OF assms, of c1 d]
  by (simp add: get_processing_orders_def)

theorem processing_orders_own_sales_only_witness:
  "\<not> role_in ann [''admin'', ''manager'']
   \<and> get_processing_orders None ann store0
       = get_processing_orders (Some ''bob'') ann store0"
proof -
  have h: "\<not> role_in ann [''admin'', ''manager'']"
    by (simp add: role_in_def ann_def)
  from processing_orders_own_sales_only [OF h, of None store0 "Some ''bob''"] h
  show ?thesis by simp
qed

section \<open>The conversion of a decimal to a float\<close>

lemma rint_error: "\<bar>of_int (rint x) - x\<bar> \<le> 1 / 2"
proof -
  have "of_int \<lfloor>x\<rfloor> \<le> x" "x < of_int \<lfloor>x\<rfloor> + 1" by linarith+
  then show ?thesis
    by (auto simp: rint_def Let_def)
qed

lemma floor_log2_le:
  assumes "0 < q"
  shows "power_int 2 (floor_log2 q) \<le> q"
proof -
  obtain a b where ab: "quotient_of q = (a, b)" by (cases "quotient_of q")
  then have b: "0 < b" and q: "q = of_int a / of_int b"
    by (rule quotient_of_denom_pos, rule quotient_of_div)
  from assms q b have a: "0 < a" by (simp add: zero_less_divide_iff)
  let ?k = "bitlen a - bitlen b"
  show ?thesis
  proof (cases "power_int 2 ?k \<le> q")
    case True
    then show ?thesis by (simp add: floor_log2_def ab)
  next
    case False
    have la: "1 \<le> bitlen a" using a bitlen_eq_zero_iff [of a] bitlen_nonneg [of a] by linarith
    have lb: "0 \<le> bitlen b" by (rule bitlen_nonneg)
    have na: "(2::int) ^ nat (bitlen a - 1) \<le> a" using bitlen_bounds [OF a] by blast
    have nb: "b < 2 ^ nat (bitlen b)" using bitlen_bounds [OF b] by blast
    have "?k - 1 = (bitlen a - 1) - bitlen b" by simp
    then have "power_int (2::rat) (?k - 1) = power_int 2 ((bitlen a - 1) - bitlen b)"
      by (rule arg_cong)
    also have "\<dots> = power_int 2 (bitlen a - 1) / power_int 2 (bitlen b)"
      by (rule power_int_diff) simp
    also have "\<dots> = of_int (2 ^ nat (bitlen a - 1)) / of_int (2 ^ nat (bitlen b))"
      using la lb by (simp add: power_int_def)
    also have "\<dots> \<le> of_int a / of_int b"
      using na nb a b by (intro frac_le) auto
    finally have "power_int 2 (?k - 1) \<le> q" by (simp only: q)
    moreover have "floor_log2 q = ?k - 1" using False by (simp add: floor_log2_def ab)
    ultimately show ?thesis by simp
  qed
qed

lemma floor_log2_less:
  assumes "0 < q" and "q < 2 ^ n"
  shows "floor_log2 q < int n"
proof (rule ccontr)
  assume "\<not> floor_log2 q < int n"
  then have "int n \<le> floor_log2 q" by simp
  then have "power_int (2::rat) (int n) \<le> power_int 2 (floor_log2 q)"
    by (intro power_int_increasing) auto
  with floor_log2_le [OF assms(1)] assms(2) show False by simp
qed

lemma power_int_neg_nat:
  assumes "e < 0"
  shows "power_int (2::rat) e = 1 / 2 ^ nat (- e)"
proof -
  have "power_int (2::rat) e = inverse 2 ^ nat (- e)"
    using assms by (simp add: power_int_def)
  also have "\<dots> = inverse (2 ^ nat (- e))"
    by (rule power_inverse)
  also have "\<dots> = 1 / 2 ^ nat (- e)"
    by (rule inverse_eq_divide)
  finally show ?thesis .
qed

lemma nearest_double_finite:
  assumes "q \<noteq> 0" and "e0 = max (floor_log2 \<bar>q\<bar> - 52) (- 1074)" and "e0 \<le> - 8"
      and "m0 = rint (\<bar>q\<bar> / power_int 2 e0)"
  shows "\<exists>x. nearest_double q = Finite x
           \<and> fval x = (if q < 0 then - 1 else 1) * of_int m0 * power_int 2 e0"
proof -
  have p: "power_int (2::rat) e0 = 1 / 2 ^ nat (- e0)"
    using assms(3) by (intro power_int_neg_nat) simp
  have "nearest_double q =
     (if q = 0 \<or> rint (\<bar>q\<bar> / power_int 2 (max (floor_log2 \<bar>q\<bar> - 52) (- 1074))) = 0
      then Finite (Float 0 0)
      else if 971 < (if rint (\<bar>q\<bar> / power_int 2 (max (floor_log2 \<bar>q\<bar> - 52) (- 1074))) = 2 ^ 53
                     then max (floor_log2 \<bar>q\<bar> - 52) (- 1074) + 1
                     else max (floor_log2 \<bar>q\<bar> - 52) (- 1074))
      then Infinity (q < 0)
      else if 0 \<le> (if rint (\<bar>q\<bar> / power_int 2 (max (floor_log2 \<bar>q\<bar> - 52) (- 1074))) = 2 ^ 53
                      then max (floor_log2 \<bar>q\<bar> - 52) (- 1074) + 1
                      else max (floor_log2 \<bar>q\<bar> - 52) (- 1074))
      then Finite (Float ((if q < 0
                            then - (if rint (\<bar>q\<bar> / power_int 2 (max (floor_log2 \<bar>q\<bar> - 52) (- 1074))) = 2 ^ 53
                                    then 2 ^ 52
                                    else rint (\<bar>q\<bar> / power_int 2 (max (floor_log2 \<bar>q\<bar> - 52) (- 1074))))
                            else (if rint (\<bar>q\<bar> / power_int 2 (max (floor_log2 \<bar>q\<bar> - 52) (- 1074))) = 2 ^ 53
                                  then 2 ^ 52
                                  else rint (\<bar>q\<bar> / power_int 2 (max (floor_log2 \<bar>q\<bar> - 52) (- 1074)))))
                          * 2 ^ nat (if rint (\<bar>q\<bar> / power_int 2 (max (floor_log2 \<bar>q\<bar> - 52) (- 1074))) = 2 ^ 53
                                     then max (floor_log2 \<bar>q\<bar> - 52) (- 1074) + 1
                                     else max (floor_log2 \<bar>q\<bar> - 52) (- 1074))) 0)
      else Finite (Float (if q < 0
                          then - (if rint (\<bar>q\<bar> / power_int 2 (max (floor_log2 \<bar>q\<bar> - 52) (- 1074))) = 2 ^ 53
                                  then 2 ^ 52
                                  else rint (\<bar>q\<bar> / power_int 2 (max (floor_log2 \<bar>q\<bar> - 52) (- 1074))))
                          else (if rint (\<bar>q\<bar> / power_int 2 (max (floor_log2 \<bar>q\<bar> - 52) (- 1074))) = 2 ^ 53
                                then 2 ^ 52
                                else rint (\<bar>q\<bar> / power_int 2 (max (floor_log2 \<bar>q\<bar> - 52) (- 1074)))))
                         (nat (- (if rint (\<bar>q\<bar> / power_int 2 (max (floor_log2 \<bar>q\<bar> - 52) (- 1074))) = 2 ^ 53
                                  then max (floor_log2 \<bar>q\<bar> - 52) (- 1074) + 1
                                  else max (floor_log2 \<bar>q\<bar> - 52) (- 1074))))))"
    unfolding nearest_double_def Let_def ..
  then have u: "nearest_double q =
     (if q = 0 \<or> m0 = 0 then Finite (Float 0 0)
      else if 971 < (if m0 = 2 ^ 53 then e0 + 1 else e0) then Infinity (q < 0)
      else if 0 \<le> (if m0 = 2 ^ 53 then e0 + 1 else e0)
      then Finite (Float ((if q < 0 then - (if m0 = 2 ^ 53 then 2 ^ 52 else m0)
                            else (if m0 = 2 ^ 53 then 2 ^ 52 else m0))
                          * 2 ^ nat (if m0 = 2 ^ 53 then e0 + 1 else e0)) 0)
      else Finite (Float (if q < 0 then - (if m0 = 2 ^ 53 then 2 ^ 52 else m0)
                          else (if m0 = 2 ^ 53 then 2 ^ 52 else m0))
                         (nat (- (if m0 = 2 ^ 53 then e0 + 1 else e0)))))"
    unfolding assms(2) [symmetric] assms(4) [symmetric] .
  consider "m0 = 0" | "m0 = 2 ^ 53" | "m0 \<noteq> 0" "m0 \<noteq> 2 ^ 53" by blast
  then show ?thesis
  proof cases
    case 1
    then have "nearest_double q = Finite (Float 0 0)"
      unfolding u by simp
    then show ?thesis using 1 by (simp add: fval_def)
  next
    case 2
    have e: "\<not> 971 < e0 + 1" "\<not> 0 \<le> e0 + 1" using assms(3) by simp_all
    have n: "nearest_double q = Finite (Float (if q < 0 then - (2 ^ 52) else 2 ^ 52) (nat (- (e0 + 1))))"
      unfolding u using assms(1) 2 e by simp
    have "nat (- e0) = Suc (nat (- (e0 + 1)))" using assms(3) by simp
    then have "(2::rat) ^ nat (- e0) = 2 * 2 ^ nat (- (e0 + 1))" by simp
    then have "(2::rat) ^ 52 / 2 ^ nat (- (e0 + 1)) = 2 ^ 53 * power_int 2 e0"
      unfolding p by simp
    then show ?thesis
      unfolding n using 2 by (simp add: fval_def)
  next
    case 3
    have e: "\<not> 971 < e0" "\<not> 0 \<le> e0" using assms(3) by simp_all
    have n: "nearest_double q = Finite (Float (if q < 0 then - m0 else m0) (nat (- e0)))"
      unfolding u using assms(1) 3 e by simp
    show ?thesis
      unfolding n p by (simp add: fval_def)
  qed
qed

lemma nearest_double_close:
  assumes "\<bar>q\<bar> < 2 ^ 45"
  shows "\<exists>x. nearest_double q = Finite x \<and> \<bar>fval x - q\<bar> \<le> 1 / 512"
proof (cases "q = 0")
  case True
  then show ?thesis by (simp add: nearest_double_def fval_def)
next
  case False
  define e0 where "e0 = max (floor_log2 \<bar>q\<bar> - 52) (- 1074)"
  define m0 where "m0 = rint (\<bar>q\<bar> / power_int 2 e0)"
  have a: "0 < \<bar>q\<bar>" using False by simp
  from floor_log2_less [OF a assms] have e8: "e0 \<le> - 8"
    by (simp add: e0_def)
  from nearest_double_finite [OF False e0_def e8 m0_def] obtain x where
    x: "nearest_double q = Finite x"
       "fval x = (if q < 0 then - 1 else 1) * of_int m0 * power_int 2 e0"
    by blast
  let ?p = "power_int (2::rat) e0"
  have pp: "0 < ?p" by (simp add: power_int_def)
  have "?p \<le> power_int 2 (- 8)"
    using e8 by (intro power_int_increasing) auto
  moreover have "power_int (2::rat) (- 8) = 1 / 256"
    using power_int_neg_nat [of "- 8"] by simp
  ultimately have p8: "?p \<le> 1 / 256" by (simp only:)
  have "\<bar>of_int m0 - \<bar>q\<bar> / ?p\<bar> \<le> 1 / 2"
    unfolding m0_def by (rule rint_error)
  then have "\<bar>of_int m0 - \<bar>q\<bar> / ?p\<bar> * ?p \<le> 1 / 2 * ?p"
    using pp by (intro mult_right_mono) auto
  moreover have "\<bar>of_int m0 - \<bar>q\<bar> / ?p\<bar> * ?p = \<bar>of_int m0 * ?p - \<bar>q\<bar>\<bar>"
  proof -
    have "\<bar>of_int m0 - \<bar>q\<bar> / ?p\<bar> * ?p = \<bar>(of_int m0 - \<bar>q\<bar> / ?p) * ?p\<bar>"
      using pp by (simp add: abs_mult)
    also have "(of_int m0 - \<bar>q\<bar> / ?p) * ?p = of_int m0 * ?p - \<bar>q\<bar>"
      using pp by (simp add: algebra_simps)
    finally show ?thesis .
  qed
  ultimately have err: "\<bar>of_int m0 * ?p - \<bar>q\<bar>\<bar> \<le> 1 / 512"
    using p8 by linarith
  have "\<bar>fval x - q\<bar> = \<bar>of_int m0 * ?p - \<bar>q\<bar>\<bar>"
  proof (cases "q < 0")
    case True
    then have "fval x - q = - (of_int m0 * ?p - \<bar>q\<bar>)"
      by (simp add: x(2))
    then show ?thesis by (simp only: abs_minus)
  next
    case False
    then show ?thesis by (simp add: x(2))
  qed
  with err x(1) show ?thesis by simp
qed

section \<open>The order aggregator\<close>

lemma set_first_seen [simp]: "set (first_seen ks) = set ks"
  by (induction ks) auto

lemma distinct_first_seen [simp]: "distinct (first_seen ks)"
  by (induction ks) auto

lemma first_seen_snoc:
  "first_seen (ks @ [k]) = (if k \<in> set ks then first_seen ks else first_seen ks @ [k])"
  by (induction ks) auto

lemma agg_loop_snoc:
  "agg_loop w st (rs @ [r]) = (case agg_loop w st rs of Inl e \<Rightarrow> Inl e | Inr st' \<Rightarrow> agg_step w st' r)"
  by (induction rs arbitrary: st) (auto split: sum.splits)

lemma update_key_map:
  "update_key k f (map (\<lambda>j. (j, g j)) ks) = map (\<lambda>j. (j, if j = k then f (g j) else g j)) ks"
  by (simp add: update_key_def)

lemma update_key_absent: "k \<notin> fst ` set d \<Longrightarrow> update_key k f d = d"
  by (induction d) (auto simp: update_key_def)

lemma update_key_append: "update_key k f (d @ e) = update_key k f d @ update_key k f e"
  by (simp add: update_key_def)

lemma items_of_snoc:
  "items_of k (rows @ [r]) = (if SaleID r = k then items_of k rows @ present r else items_of k rows)"
  by (simp add: items_of_def)

lemma items_of_new: "k \<notin> SaleID ` set rows \<Longrightarrow> items_of k rows = []"
  by (auto simp: items_of_def filter_empty_conv)

lemma filter_new: "k \<notin> SaleID ` set rows \<Longrightarrow> filter (\<lambda>r. SaleID r = k) rows = []"
  by (auto simp: filter_empty_conv)

lemma first_row_snoc:
  "k \<in> SaleID ` set rows \<Longrightarrow> first_row k (rows @ [r]) = first_row k rows"
proof -
  assume "k \<in> SaleID ` set rows"
  then have "filter (\<lambda>r. SaleID r = k) rows \<noteq> []"
    by (auto simp: filter_empty_conv)
  then show ?thesis by (simp add: first_row_def)
qed

lemma first_row_new: "SaleID r \<notin> SaleID ` set rows \<Longrightarrow> first_row (SaleID r) (rows @ [r]) = r"
  by (simp add: first_row_def filter_new)

lemma first_row_mem:
  assumes "k \<in> SaleID ` set rows"
  shows "first_row k rows \<in> set rows \<and> SaleID (first_row k rows) = k"
proof -
  have "filter (\<lambda>r. SaleID r = k) rows \<noteq> []"
    using assms by (auto simp: filter_empty_conv)
  then have "hd (filter (\<lambda>r. SaleID r = k) rows) \<in> set (filter (\<lambda>r. SaleID r = k) rows)"
    by (rule hd_in_set)
  then show ?thesis by (simp add: first_row_def)
qed

lemma order_fields_empty [simp]:
  "od_items (order_fields w r) = 0" "od_orderItems (order_fields w r) = []"
  "(order_fields w r)\<lparr> od_items := 0, od_orderItems := [] \<rparr> = order_fields w r"
  by (simp_all add: order_fields_def)

lemma acc_of_other: "SaleID r \<noteq> k \<Longrightarrow> acc_of w (rows @ [r]) k = acc_of w rows k"
  by (simp add: acc_of_def items_of_snoc first_row_def)

lemma acc_of_same:
  "acc_of w (rows @ [r]) (SaleID r) =
     (let a = (if SaleID r \<in> SaleID ` set rows then acc_of w rows (SaleID r) else order_fields w r)
      in a\<lparr> od_items := od_items a + sum_list (map (\<lambda>i. int_or (Quantity i) 0) (present r)),
            od_orderItems := od_orderItems a @ map item_of (present r) \<rparr>)"
  by (simp add: acc_of_def items_of_snoc first_row_snoc first_row_new items_of_new Let_def)

lemma sub_of_snoc:
  "sub_of (rows @ [r]) k =
     (if SaleID r = k then foldl dadd (sub_of rows k) (map line_amount (present r)) else sub_of rows k)"
  by (simp add: sub_of_def items_of_snoc)

lemma sub_of_new: "k \<notin> SaleID ` set rows \<Longrightarrow> sub_of rows k = Decimal_0_0"
  by (simp add: sub_of_def items_of_new)

lemma map_acc_of_other:
  "SaleID r \<notin> set ks \<Longrightarrow> map (\<lambda>k. (k, acc_of w (rows @ [r]) k)) ks = map (\<lambda>k. (k, acc_of w rows k)) ks"
  by (induction ks) (auto simp: acc_of_other)

lemma has_key_agg_state: "has_key (fst (agg_state w rows)) k \<longleftrightarrow> k \<in> SaleID ` set rows"
  by (auto simp: agg_state_def has_key_def image_iff)

lemma snd_agg_state: "snd (agg_state w rows) k = (if k \<in> SaleID ` set rows then Some (sub_of rows k) else None)"
  by (simp add: agg_state_def)

lemma snd_agg_state_snoc:
  "snd (agg_state w (rows @ [r])) =
     (let subs = snd (agg_state w rows);
          subs1 = (if SaleID r \<in> SaleID ` set rows then subs else subs(SaleID r \<mapsto> Decimal_0_0))
      in subs1(SaleID r \<mapsto> foldl dadd (the (subs1 (SaleID r))) (map line_amount (present r))))"
  by (rule ext) (auto simp: agg_state_def Let_def sub_of_snoc sub_of_new)

lemma fst_agg_state_snoc:
  "fst (agg_state w (rows @ [r])) =
     (let od = fst (agg_state w rows);
          od1 = (if SaleID r \<in> SaleID ` set rows then od else od @ [(SaleID r, order_fields w r)])
      in update_key (SaleID r)
           (\<lambda>ord. ord\<lparr> od_items := od_items ord + sum_list (map (\<lambda>i. int_or (Quantity i) 0) (present r)),
                        od_orderItems := od_orderItems ord @ map item_of (present r) \<rparr>) od1)"
proof (cases "SaleID r \<in> SaleID ` set rows")
  case True
  let ?ks = "first_seen (map SaleID rows)"
  have "map (\<lambda>k. (k, acc_of w (rows @ [r]) k)) ?ks
      = map (\<lambda>j. (j, if j = SaleID r then acc_of w (rows @ [r]) (SaleID r) else acc_of w rows j)) ?ks"
    by (rule map_cong) (auto simp: acc_of_other)
  then have l: "fst (agg_state w (rows @ [r]))
      = map (\<lambda>j. (j, if j = SaleID r then acc_of w (rows @ [r]) (SaleID r) else acc_of w rows j)) ?ks"
    using True by (simp add: agg_state_def first_seen_snoc)
  have r1: "fst (agg_state w rows) = map (\<lambda>j. (j, acc_of w rows j)) ?ks"
    by (simp add: agg_state_def)
  show ?thesis
    unfolding l r1 Let_def using True
    by (simp add: update_key_map acc_of_same Let_def cong: map_cong)
next
  case False
  let ?ks = "first_seen (map SaleID rows)"
  have nk: "SaleID r \<notin> set ?ks" using False by simp
  have nf: "SaleID r \<notin> fst ` set (map (\<lambda>k. (k, acc_of w rows k)) ?ks)"
    using False by (auto simp: image_iff)
  have l: "fst (agg_state w (rows @ [r]))
      = map (\<lambda>j. (j, acc_of w rows j)) ?ks @ [(SaleID r, acc_of w (rows @ [r]) (SaleID r))]"
    using False map_acc_of_other [OF nk, of w rows] by (simp add: agg_state_def first_seen_snoc)
  have r1: "fst (agg_state w rows) = map (\<lambda>j. (j, acc_of w rows j)) ?ks"
    by (simp add: agg_state_def)
  show ?thesis
    unfolding l r1 Let_def using False
    by (simp add: update_key_append update_key_absent [OF nf] acc_of_same Let_def) (simp add: update_key_def)
qed

lemma update_key_ident [simp]: "update_key k (\<lambda>ord. ord) d = d"
  by (induction d) (auto simp: update_key_def)

lemma new_order_fields: "CreatedAt r \<noteq> None \<Longrightarrow> new_order w r = Inr (order_fields w r)"
  by (auto simp: new_order_def order_fields_def)

lemma new_order_fails: "CreatedAt r = None \<Longrightarrow> new_order w r = Inl AttributeError"
  by (simp add: new_order_def)

lemma make_item_ok: "item_columns_ok r \<Longrightarrow> make_item r = Inr (item_of r)"
  by (auto simp: item_columns_ok_def addons_ok_def make_item_def item_of_def json_loads_def
        ProcessingSaleItem_init_def Let_def split: option.splits addons_text.splits py_value.splits)

lemma make_item_fails: "\<not> item_columns_ok r \<Longrightarrow> \<exists>e. make_item r = Inl e"
  by (auto simp: item_columns_ok_def addons_ok_def make_item_def json_loads_def
        ProcessingSaleItem_init_def Let_def split: option.splits addons_text.splits py_value.splits)

lemma agg_step_state:
  assumes "SaleID r \<in> SaleID ` set rows \<or> CreatedAt r \<noteq> None"
      and "truthy (SaleItemID r) \<Longrightarrow> item_columns_ok r"
  shows "agg_step w (agg_state w rows) r = Inr (agg_state w (rows @ [r]))"
proof -
  obtain od subs where S: "agg_state w rows = (od, subs)"
    by (cases "agg_state w rows")
  have hk: "has_key od (SaleID r) \<longleftrightarrow> SaleID r \<in> SaleID ` set rows"
    using has_key_agg_state [of w rows "SaleID r"] S by simp
  have sk: "subs (SaleID r) = (if SaleID r \<in> SaleID ` set rows then Some (sub_of rows (SaleID r)) else None)"
    using snd_agg_state [of w rows "SaleID r"] S by simp
  have f: "fst (agg_state w (rows @ [r])) =
     (let od1 = (if SaleID r \<in> SaleID ` set rows then od else od @ [(SaleID r, order_fields w r)])
      in update_key (SaleID r)
           (\<lambda>ord. ord\<lparr> od_items := od_items ord + sum_list (map (\<lambda>i. int_or (Quantity i) 0) (present r)),
                        od_orderItems := od_orderItems ord @ map item_of (present r) \<rparr>) od1)"
    using fst_agg_state_snoc [of w rows r] S by simp
  have s: "snd (agg_state w (rows @ [r])) =
     (let subs1 = (if SaleID r \<in> SaleID ` set rows then subs else subs(SaleID r \<mapsto> Decimal_0_0))
      in subs1(SaleID r \<mapsto> foldl dadd (the (subs1 (SaleID r))) (map line_amount (present r))))"
    using snd_agg_state_snoc [of w rows r] S by simp
  have n: "SaleID r \<notin> SaleID ` set rows \<Longrightarrow> new_order w r = Inr (order_fields w r)"
    using assms(1) by (auto intro: new_order_fields)
  have m: "truthy (SaleItemID r) \<Longrightarrow> make_item r = Inr (item_of r)"
    using assms(2) by (auto intro: make_item_ok)
  have "agg_step w (od, subs) r = Inr (fst (agg_state w (rows @ [r])), snd (agg_state w (rows @ [r])))"
    unfolding f s using hk sk n m
    by (auto simp: agg_step_def Let_def present_def fun_upd_idem split: option.splits)
  then show ?thesis by (simp add: S)
qed

lemma agg_step_fails:
  assumes "\<not> ((SaleID r \<in> SaleID ` set rows \<or> CreatedAt r \<noteq> None)
              \<and> (truthy (SaleItemID r) \<longrightarrow> item_columns_ok r))"
  shows "\<exists>e. agg_step w (agg_state w rows) r = Inl e"
proof -
  obtain od subs where S: "agg_state w rows = (od, subs)"
    by (cases "agg_state w rows")
  have hk: "has_key od (SaleID r) \<longleftrightarrow> SaleID r \<in> SaleID ` set rows"
    using has_key_agg_state [of w rows "SaleID r"] S by simp
  show ?thesis
  proof (cases "SaleID r \<in> SaleID ` set rows \<or> CreatedAt r \<noteq> None")
    case False
    then show ?thesis
      using hk by (simp add: S agg_step_def new_order_fails)
  next
    case True
    with assms have t: "truthy (SaleItemID r)" and "\<not> item_columns_ok r" by auto
    from make_item_fails [OF this(2)] obtain e where e: "make_item r = Inl e" ..
    show ?thesis
      using t e by (auto simp: S agg_step_def Let_def split: sum.splits option.splits prod.splits)
  qed
qed

lemma loop_ok_snoc:
  "loop_ok (rows @ [r]) \<longleftrightarrow>
     loop_ok rows \<and> (SaleID r \<in> SaleID ` set rows \<or> CreatedAt r \<noteq> None)
                  \<and> (truthy (SaleItemID r) \<longrightarrow> item_columns_ok r)"
proof -
  have a: "(\<forall>k \<in> SaleID ` set (rows @ [r]). CreatedAt (first_row k (rows @ [r])) \<noteq> None)
        \<longleftrightarrow> (\<forall>k \<in> SaleID ` set rows. CreatedAt (first_row k rows) \<noteq> None)
            \<and> (SaleID r \<in> SaleID ` set rows \<or> CreatedAt r \<noteq> None)"
  proof (cases "SaleID r \<in> SaleID ` set rows")
    case True
    then have "SaleID ` set (rows @ [r]) = SaleID ` set rows" by auto
    then show ?thesis using True by (simp add: first_row_snoc)
  next
    case False
    have "SaleID ` set (rows @ [r]) = insert (SaleID r) (SaleID ` set rows)" by auto
    then show ?thesis using False by (auto simp: first_row_snoc first_row_new)
  qed
  show ?thesis
    unfolding loop_ok_def item_rows_ok_def list_all_iff set_first_seen set_map a by auto
qed

lemma agg_loop_state:
  "(loop_ok rows \<longrightarrow> agg_loop w ([], Map.empty) rows = Inr (agg_state w rows))
   \<and> (\<not> loop_ok rows \<longrightarrow> (\<exists>e. agg_loop w ([], Map.empty) rows = Inl e))"
proof (induction rows rule: rev_induct)
  case Nil
  show ?case by (simp add: agg_state_def loop_ok_def item_rows_ok_def)
next
  case (snoc r rows)
  show ?case
  proof (cases "loop_ok rows")
    case False
    with snoc obtain e where "agg_loop w ([], Map.empty) rows = Inl e" by blast
    then show ?thesis using False by (simp add: agg_loop_snoc loop_ok_snoc)
  next
    case True
    with snoc have l: "agg_loop w ([], Map.empty) rows = Inr (agg_state w rows)" by blast
    show ?thesis
    proof (cases "(SaleID r \<in> SaleID ` set rows \<or> CreatedAt r \<noteq> None)
                  \<and> (truthy (SaleItemID r) \<longrightarrow> item_columns_ok r)")
      case ok: True
      then have "agg_step w (agg_state w rows) r = Inr (agg_state w (rows @ [r]))"
        by (intro agg_step_state) auto
      then show ?thesis using True ok by (simp add: agg_loop_snoc l loop_ok_snoc)
    next
      case bad: False
      from agg_step_fails [OF this] obtain e where "agg_step w (agg_state w rows) r = Inl e" ..
      then show ?thesis using bad by (simp add: agg_loop_snoc l loop_ok_snoc)
    qed
  qed
qed

lemma finalize_order:
  assumes "k \<in> SaleID ` set rows" and "order_columns_ok (first_row k rows)"
  shows "finalize (snd (agg_state w rows)) (k, acc_of w rows k) = Inr (order_of w rows k)"
  using assms
  by (auto simp: finalize_def agg_state_def acc_of_def order_fields_def order_of_def
        order_columns_ok_def ProcessingOrder_init_def Let_def)

lemma finalize_fails:
  assumes "\<not> order_columns_ok (first_row k rows)"
  shows "\<exists>e. finalize (snd (agg_state w rows)) (k, acc_of w rows k) = Inl e"
  using assms
  by (auto simp: finalize_def acc_of_def order_fields_def order_columns_ok_def
        ProcessingOrder_init_def Let_def split: option.splits)

lemma response_list_orders:
  assumes "set ks \<subseteq> SaleID ` set rows"
  shows "(list_all (\<lambda>k. order_columns_ok (first_row k rows)) ks
            \<longrightarrow> response_list (snd (agg_state w rows)) (map (\<lambda>k. (k, acc_of w rows k)) ks)
                  = Inr (map (order_of w rows) ks))
       \<and> (\<not> list_all (\<lambda>k. order_columns_ok (first_row k rows)) ks
            \<longrightarrow> (\<exists>e. response_list (snd (agg_state w rows)) (map (\<lambda>k. (k, acc_of w rows k)) ks) = Inl e))"
  using assms
proof (induction ks)
  case Nil
  show ?case by simp
next
  case (Cons k ks)
  then have k: "k \<in> SaleID ` set rows" and ks: "set ks \<subseteq> SaleID ` set rows" by auto
  note ih = Cons.IH [OF ks]
  show ?case
  proof (cases "order_columns_ok (first_row k rows)")
    case False
    from finalize_fails [OF this, of w] obtain e where
      "finalize (snd (agg_state w rows)) (k, acc_of w rows k) = Inl e" ..
    then show ?thesis using False by simp
  next
    case True
    from finalize_order [OF k True, of w]
    have f: "finalize (snd (agg_state w rows)) (k, acc_of w rows k) = Inr (order_of w rows k)" .
    show ?thesis
    proof (cases "list_all (\<lambda>k. order_columns_ok (first_row k rows)) ks")
      case all: True
      with ih show ?thesis using True f by simp
    next
      case some: False
      with ih obtain e where
        "response_list (snd (agg_state w rows)) (map (\<lambda>k. (k, acc_of w rows k)) ks) = Inl e" by blast
      then show ?thesis using some f by simp
    qed
  qed
qed

lemma aggregate_orders:
  assumes "accepted rows"
  shows "aggregate w failure_detail rows = Inr (map (order_of w rows) (first_seen (map SaleID rows)))"
proof -
  let ?ks = "first_seen (map SaleID rows)"
  from assms have "loop_ok rows" by (simp add: accepted_def)
  with agg_loop_state [of rows w]
  have l: "agg_loop w ([], Map.empty) rows
      = Inr (map (\<lambda>k. (k, acc_of w rows k)) ?ks, snd (agg_state w rows))"
    by (simp add: agg_state_def)
  have "set ?ks \<subseteq> SaleID ` set rows" by simp
  from response_list_orders [OF this, of w] assms
  have "response_list (snd (agg_state w rows)) (map (\<lambda>k. (k, acc_of w rows k)) ?ks)
      = Inr (map (order_of w rows) ?ks)"
    by (simp add: accepted_def)
  with l show ?thesis
    by (simp add: aggregate_def)
qed

lemma aggregate_fails:
  assumes "\<not> accepted rows"
  shows "aggregate w failure_detail rows = Inl (HTTPException 500 failure_detail)"
proof (cases "loop_ok rows")
  case False
  with agg_loop_state [of rows w] obtain e where "agg_loop w ([], Map.empty) rows = Inl e" by blast
  then show ?thesis by (simp add: aggregate_def)
next
  case True
  let ?ks = "first_seen (map SaleID rows)"
  from True agg_loop_state [of rows w]
  have l: "agg_loop w ([], Map.empty) rows
      = Inr (map (\<lambda>k. (k, acc_of w rows k)) ?ks, snd (agg_state w rows))"
    by (simp add: agg_state_def)
  have "set ?ks \<subseteq> SaleID ` set rows" by simp
  from response_list_orders [OF this, of w] assms True obtain e where
    "response_list (snd (agg_state w rows)) (map (\<lambda>k. (k, acc_of w rows k)) ?ks) = Inl e"
    by (auto simp: accepted_def)
  with l show ?thesis
    by (simp add: aggregate_def)
qed

lemma order_of_fields:
  "id' (order_of w rows k) = k"
  "items (order_of w rows k) = sum_list (map (\<lambda>i. int_or (Quantity i) 0) (items_of k rows))"
  "orderItems (order_of w rows k) = map item_of (items_of k rows)"
  "total' (order_of w rows k)
     = float_Decimal (dsub (sub_of rows k) (the (TotalDiscountAmount (first_row k rows))))"
  by (simp_all add: order_of_def Let_def)

lemma complete_accepted:
  assumes "complete rows"
  shows "accepted rows"
proof -
  have all: "\<forall>r \<in> set rows. CreatedAt r \<noteq> None \<and> order_columns_ok r
               \<and> (if truthy (SaleItemID r) then item_columns_ok r else True)"
    using assms unfolding complete_def list_all_iff .
  have "CreatedAt (first_row k rows) \<noteq> None \<and> order_columns_ok (first_row k rows)"
    if "k \<in> SaleID ` set rows" for k
    using first_row_mem [OF that] all by blast
  then show ?thesis
    using all unfolding accepted_def loop_ok_def item_rows_ok_def list_all_iff set_first_seen set_map
    by blast
qed

lemma complete_append: "complete (xs @ ys) \<longleftrightarrow> complete xs \<and> complete ys"
  by (simp add: complete_def)

lemma complete_concat: "(\<forall>xs \<in> set xss. complete xs) \<Longrightarrow> complete (concat xss)"
  by (induction xss) (simp_all add: complete_append, simp add: complete_def)

lemma left_join_complete: "complete (left_join d s)"
  by (auto simp: left_join_def Let_def complete_def list_all_iff order_row_def item_row_def
        order_columns_ok_def item_columns_ok_def addons_ok_def truthy_def split: option.splits)

lemma all_orders_answer:
  "role_in u [''admin'', ''manager''] \<Longrightarrow>
     get_all_orders u d = Inr (map (order_of True (all_rows d)) (first_seen (map SaleID (all_rows d))))"
proof -
  have "complete (all_rows d)"
    unfolding all_rows_def by (rule complete_concat) (auto simp: left_join_complete)
  then have "accepted (all_rows d)" by (rule complete_accepted)
  then show "role_in u [''admin'', ''manager''] \<Longrightarrow> ?thesis"
    by (simp add: get_all_orders_def aggregate_orders)
qed

lemma cancelled_orders_answer:
  "role_in u [''admin'', ''manager'', ''cashier''] \<Longrightarrow>
     get_todays_cancelled_orders now request u d
       = Inr (map (order_of True (cancelled_rows now (cor_cashierName request) d))
                  (first_seen (map SaleID (cancelled_rows now (cor_cashierName request) d))))"
proof -
  have "complete (cancelled_rows now (cor_cashierName request) d)"
    unfolding cancelled_rows_def by (rule complete_concat) (auto simp: left_join_complete)
  then have "accepted (cancelled_rows now (cor_cashierName request) d)" by (rule complete_accepted)
  then show "role_in u [''admin'', ''manager'', ''cashier''] \<Longrightarrow> ?thesis"
    by (simp add: get_todays_cancelled_orders_def aggregate_orders)
qed

lemma processing_orders_answer:
  "role_in u [''admin'', ''manager'', ''staff'', ''cashier''] \<Longrightarrow>
     get_processing_orders c u d
       = Inr (map (order_of False (processing_rows c u d)) (first_seen (map SaleID (processing_rows c u d))))"
proof -
  have "complete (processing_rows c u d)"
    unfolding processing_rows_def Let_def by (rule complete_concat) (auto simp: left_join_complete)
  then have "accepted (processing_rows c u d)" by (rule complete_accepted)
  then show "role_in u [''admin'', ''manager'', ''staff'', ''cashier''] \<Longrightarrow> ?thesis"
    by (simp add: get_processing_orders_def aggregate_orders)
qed




section \<open>The totals of the aggregator\<close>

lemma sum_list_map_mset_cong:
  fixes f :: "'a \<Rightarrow> 'b::comm_monoid_add"
  assumes "mset xs = mset ys"
  shows "sum_list (map f xs) = sum_list (map f ys)"
proof -
  have "sum_list (map f zs) = sum_mset (image_mset f (mset zs))" for zs
    by (simp flip: sum_mset_sum_list)
  then show ?thesis using assms by simp
qed

lemma items_of_filter:
  "items_of k rows = filter (\<lambda>r. truthy (SaleItemID r)) (filter (\<lambda>r. SaleID r = k) rows)"
proof -
  have "concat (map present xs) = filter (\<lambda>r. truthy (SaleItemID r)) xs" for xs
    by (induction xs) (simp_all add: present_def)
  then show ?thesis by (simp add: items_of_def)
qed

lemma items_of_non_null:
  assumes "no_zero_key rows"
  shows "items_of k rows = non_null_items k rows"
proof -
  have "\<forall>r \<in> set rows. SaleItemID r \<noteq> Some 0"
    using assms unfolding no_zero_key_def list_all_iff .
  then have "truthy (SaleItemID r) \<longleftrightarrow> SaleItemID r \<noteq> None"
    if "r \<in> set (filter (\<lambda>r. SaleID r = k) rows)" for r
    using that by (auto simp: truthy_def split: option.splits)
  then show ?thesis
    unfolding items_of_filter non_null_items_def by (intro filter_cong refl)
qed

lemma mset_non_null_items:
  "mset rows' = mset rows \<Longrightarrow> mset (non_null_items k rows') = mset (non_null_items k rows)"
  by (simp add: non_null_items_def)

lemma items_of_subset: "i \<in> set (items_of k rows) \<Longrightarrow> i \<in> set rows"
  by (simp add: items_of_filter)

lemma order_columns_eq:
  assumes "order_columns a = order_columns b"
  shows "CreatedAt a = CreatedAt b" "TotalDiscountAmount a = TotalDiscountAmount b"
        "order_columns_ok a = order_columns_ok b"
  using assms by (simp_all add: order_columns_def order_columns_ok_def)

lemma joined_first_row:
  assumes "joined rows" and "r \<in> set rows"
  shows "order_columns (first_row (SaleID r) rows) = order_columns r"
proof -
  have "SaleID r \<in> SaleID ` set rows" using assms(2) by (rule imageI)
  from first_row_mem [OF this]
  have h: "first_row (SaleID r) rows \<in> set rows" "SaleID (first_row (SaleID r) rows) = SaleID r"
    by blast+
  have "\<forall>x \<in> set rows. \<forall>y \<in> set rows. SaleID x = SaleID y \<longrightarrow> order_columns x = order_columns y"
    using assms(1) unfolding joined_def list_all_iff .
  with h assms(2) show ?thesis by blast
qed

lemma joined_perm: "mset rows' = mset rows \<Longrightarrow> joined rows \<Longrightarrow> joined rows'"
proof -
  assume m: "mset rows' = mset rows" and p: "joined rows"
  from m have st: "set rows' = set rows" by (rule mset_eq_setD)
  from p show ?thesis unfolding joined_def list_all_iff st .
qed

lemma places_perm: "mset rows' = mset rows \<Longrightarrow> places s rows \<Longrightarrow> places s rows'"
proof -
  assume m: "mset rows' = mset rows" and p: "places s rows"
  from m have st: "set rows' = set rows" by (rule mset_eq_setD)
  from p show ?thesis unfolding places_def list_all_iff st .
qed

lemma no_zero_key_perm: "mset rows' = mset rows \<Longrightarrow> no_zero_key rows \<Longrightarrow> no_zero_key rows'"
proof -
  assume m: "mset rows' = mset rows" and p: "no_zero_key rows"
  from m have st: "set rows' = set rows" by (rule mset_eq_setD)
  from p show ?thesis unfolding no_zero_key_def list_all_iff st .
qed

lemma accepted_perm:
  assumes "mset rows' = mset rows" and "joined rows" and "accepted rows"
  shows "accepted rows'"
proof -
  from assms(1) have st: "set rows' = set rows" by (rule mset_eq_setD)
  have j': "joined rows'" by (rule joined_perm [OF assms(1,2)])
  have it: "\<forall>r \<in> set rows. if truthy (SaleItemID r) then item_columns_ok r else True"
    and fr: "\<forall>k \<in> SaleID ` set rows. CreatedAt (first_row k rows) \<noteq> None
                                        \<and> order_columns_ok (first_row k rows)"
    using assms(3)
    unfolding accepted_def loop_ok_def item_rows_ok_def list_all_iff set_first_seen set_map
    by blast+
  have "CreatedAt (first_row k rows') \<noteq> None \<and> order_columns_ok (first_row k rows')"
    if "k \<in> SaleID ` set rows" for k
  proof -
    from that obtain r where r: "r \<in> set rows" "SaleID r = k" by auto
    have r': "r \<in> set rows'" using r(1) st by simp
    have "order_columns (first_row k rows') = order_columns (first_row k rows)"
      using joined_first_row [OF j' r'] joined_first_row [OF assms(2) r(1)] r(2) by simp
    from order_columns_eq(1,3) [OF this] fr that show ?thesis by auto
  qed
  then show ?thesis
    using it
    unfolding accepted_def loop_ok_def item_rows_ok_def list_all_iff set_first_seen set_map st
    by blast
qed

lemma foldl_dadd_map_small:
  assumes "scale_ge s z" and "\<forall>i \<in> set xs. scale_ge s (g i)"
      and "(\<bar>dval z\<bar> + (\<Sum>i \<leftarrow> xs. \<bar>dval (g i)\<bar>)) * 10 ^ s < 10 ^ 28"
  shows "dval (foldl dadd z (map g xs)) = dval z + (\<Sum>i \<leftarrow> xs. dval (g i)) \<and> scale_ge s (foldl dadd z (map g xs))"
proof -
  have a: "\<forall>a \<in> set (map g xs). scale_ge s a" using assms(2) by simp
  have b: "(\<bar>dval z\<bar> + (\<Sum>a \<leftarrow> map g xs. \<bar>dval a\<bar>)) * 10 ^ s < 10 ^ 28"
    using assms(3) by (simp add: o_def)
  from foldl_dadd_small [OF assms(1) a b] show ?thesis by (simp add: o_def)
qed

lemma sub_of_value:
  assumes "1 \<le> s" and "places s rows"
      and "((\<Sum>i \<leftarrow> items_of k rows. \<bar>line_value i\<bar>) + c) * 10 ^ s < 10 ^ 28" and "0 \<le> c"
  shows "dval (sub_of rows k) = (\<Sum>i \<leftarrow> items_of k rows. line_value i) \<and> scale_ge s (sub_of rows k)"
proof -
  let ?its = "items_of k rows"
  note gb = assms(3)
  have each: "dval (line_amount i) = line_value i \<and> scale_ge s (line_amount i)" if "i \<in> set ?its" for i
  proof -
    from items_of_subset [OF that] have "i \<in> set rows" .
    with assms(2) have sc: "case UnitPrice i of None \<Rightarrow> True | Some p \<Rightarrow> scale_ge s p"
      by (auto simp: places_def list_all_iff)
    have "\<bar>line_value i\<bar> \<le> (\<Sum>i \<leftarrow> ?its. \<bar>line_value i\<bar>) + c"
      using abs_le_sum_list [OF that, of line_value] assms(4) by simp
    from bound_mono [OF this gb] show ?thesis
      by (rule line_amount_small [OF assms(1) sc])
  qed
  have z: "scale_ge s Decimal_0_0" using assms(1) by (simp add: scale_ge_def Decimal_0_0_def)
  have sc: "\<forall>i \<in> set ?its. scale_ge s (line_amount i)" using each by blast
  have "map (\<lambda>i. \<bar>dval (line_amount i)\<bar>) ?its = map (\<lambda>i. \<bar>line_value i\<bar>) ?its"
    by (rule map_cong) (simp_all add: each)
  then have abs_eq: "(\<Sum>i \<leftarrow> ?its. \<bar>dval (line_amount i)\<bar>) = (\<Sum>i \<leftarrow> ?its. \<bar>line_value i\<bar>)"
    by (rule arg_cong)
  have "map (\<lambda>i. dval (line_amount i)) ?its = map line_value ?its"
    by (rule map_cong) (simp_all add: each)
  then have val_eq: "(\<Sum>i \<leftarrow> ?its. dval (line_amount i)) = (\<Sum>i \<leftarrow> ?its. line_value i)"
    by (rule arg_cong)
  have z0: "dval Decimal_0_0 = 0" by (simp add: dval_def Decimal_0_0_def)
  have "\<bar>dval Decimal_0_0\<bar> + (\<Sum>i \<leftarrow> ?its. \<bar>dval (line_amount i)\<bar>)
      \<le> (\<Sum>i \<leftarrow> ?its. \<bar>line_value i\<bar>) + c"
    unfolding z0 abs_eq using assms(4) by simp
  from bound_mono [OF this gb]
  have "(\<bar>dval Decimal_0_0\<bar> + (\<Sum>i \<leftarrow> ?its. \<bar>dval (line_amount i)\<bar>)) * 10 ^ s < 10 ^ 28" .
  from foldl_dadd_map_small [OF z sc this]
  have "dval (sub_of rows k) = dval Decimal_0_0 + (\<Sum>i \<leftarrow> ?its. dval (line_amount i))"
    and "scale_ge s (sub_of rows k)"
    by (simp_all only: sub_of_def)
  then show ?thesis
    unfolding z0 val_eq by simp
qed

lemma final_total_value:
  assumes "1 \<le> s" and "places s rows" and "scale_ge s d"
      and "((\<Sum>i \<leftarrow> items_of k rows. \<bar>line_value i\<bar>) + \<bar>dval d\<bar>) * 10 ^ s < 10 ^ 28"
  shows "dval (dsub (sub_of rows k) d) = (\<Sum>i \<leftarrow> items_of k rows. line_value i) - dval d"
proof -
  let ?its = "items_of k rows"
  note gb = assms(4)
  from sub_of_value [OF assms(1,2) gb]
  have v: "dval (sub_of rows k) = (\<Sum>i \<leftarrow> ?its. line_value i)" and ss: "scale_ge s (sub_of rows k)"
    by simp_all
  have "\<bar>sum_list (map line_value ?its)\<bar> \<le> sum_list (map abs (map line_value ?its))"
    by (rule sum_list_abs)
  then have "\<bar>(\<Sum>i \<leftarrow> ?its. line_value i)\<bar> \<le> (\<Sum>i \<leftarrow> ?its. \<bar>line_value i\<bar>)"
    by (simp only: map_map o_def)
  moreover have "\<bar>dval (sub_of rows k) - dval d\<bar> \<le> \<bar>dval (sub_of rows k)\<bar> + \<bar>dval d\<bar>"
    by (rule abs_triangle_ineq4)
  ultimately have "\<bar>dval (sub_of rows k) - dval d\<bar> \<le> (\<Sum>i \<leftarrow> ?its. \<bar>line_value i\<bar>) + \<bar>dval d\<bar>"
    unfolding v by linarith
  from bound_mono [OF this gb]
  have "dsub (sub_of rows k) d = exact_add (sub_of rows k) (dneg d)"
    by (rule dsub_small [OF ss assms(3)])
  then have "dval (dsub (sub_of rows k) d) = dval (sub_of rows k) - dval d"
    by (simp add: dval_exact_add dval_dneg)
  then show ?thesis
    by (simp only: v)
qed

lemma order_value:
  assumes "r \<in> set rows" and "accepted rows" and "joined rows" and "no_zero_key rows"
      and "1 \<le> s" and "places s rows" and "gross_bound s rows (SaleID r)"
  shows "total' (order_of w rows (SaleID r))
       = nearest_double ((\<Sum>i \<leftarrow> non_null_items (SaleID r) rows. line_value i) - discount_value r)"
proof -
  let ?k = "SaleID r"
  let ?h = "first_row ?k rows"
  have k: "?k \<in> SaleID ` set rows" using assms(1) by (rule imageI)
  have "order_columns_ok ?h"
    using assms(2) k unfolding accepted_def list_all_iff set_first_seen set_map by blast
  then obtain d where d: "TotalDiscountAmount ?h = Some d"
    by (auto simp: order_columns_ok_def)
  have hr: "TotalDiscountAmount ?h = TotalDiscountAmount r"
    by (rule order_columns_eq(2) [OF joined_first_row [OF assms(3,1)]])
  have dv: "discount_value ?h = dval d" "discount_value r = dval d"
    using d hr by (simp_all add: discount_value_def)
  have "?h \<in> set rows" using first_row_mem [OF k] by blast
  with assms(6) d have sd: "scale_ge s d"
    by (auto simp: places_def list_all_iff)
  have it: "items_of ?k rows = non_null_items ?k rows"
    by (rule items_of_non_null [OF assms(4)])
  have gb: "((\<Sum>i \<leftarrow> items_of ?k rows. \<bar>line_value i\<bar>) + \<bar>dval d\<bar>) * 10 ^ s < 10 ^ 28"
    using assms(7) by (simp add: gross_bound_def it dv)
  from final_total_value [OF assms(5,6) sd gb]
  have "dval (dsub (sub_of rows ?k) d) = (\<Sum>i \<leftarrow> non_null_items ?k rows. line_value i) - discount_value r"
    by (simp only: it dv)
  then show ?thesis
    by (simp add: order_of_fields d float_Decimal_def)
qed

lemma gross_bound_perm:
  assumes "mset rows' = mset rows" and "joined rows" and "r \<in> set rows"
      and "gross_bound s rows (SaleID r)"
  shows "gross_bound s rows' (SaleID r)"
proof -
  from assms(1) have st: "set rows' = set rows" by (rule mset_eq_setD)
  have r': "r \<in> set rows'" using assms(3) st by simp
  have j': "joined rows'" by (rule joined_perm [OF assms(1,2)])
  have "TotalDiscountAmount (first_row (SaleID r) rows') = TotalDiscountAmount (first_row (SaleID r) rows)"
    using order_columns_eq(2) [OF joined_first_row [OF j' r']]
          order_columns_eq(2) [OF joined_first_row [OF assms(2,3)]] by simp
  then have d: "discount_value (first_row (SaleID r) rows') = discount_value (first_row (SaleID r) rows)"
    by (simp add: discount_value_def)
  have "(\<Sum>i \<leftarrow> non_null_items (SaleID r) rows'. \<bar>line_value i\<bar>)
      = (\<Sum>i \<leftarrow> non_null_items (SaleID r) rows. \<bar>line_value i\<bar>)"
    by (rule sum_list_map_mset_cong) (rule mset_non_null_items [OF assms(1)])
  with d assms(4) show ?thesis
    by (simp only: gross_bound_def)
qed

lemma order_without_items:
  assumes "items_of k rows = []"
  shows "items (order_of w rows k) = 0 \<and> orderItems (order_of w rows k) = []
       \<and> total' (order_of w rows k)
           = float_Decimal (dsub Decimal_0_0 (the (TotalDiscountAmount (first_row k rows))))"
  by (simp add: order_of_fields assms sub_of_def)

lemma float_total:
  "float_Decimal (dsub (dadd Decimal_0_0 (dmul (Dec 9007199254740993 (- 2)) (Decimal_int 1))) (Dec 0 (- 2)))
     = Finite (Float 5764607523034236 6)"
  by code_simp

lemma wide_total:
  "float_Decimal (dsub (dadd (dadd Decimal_0_0 (dmul (Dec 9007199254740993 0) (Decimal_int 1)))
                             (dmul (Dec 1 (- 13)) (Decimal_int 1))) (Dec 0 0))
     = Finite (Float 9007199254740992 0)"
  by code_simp

lemma wide_nearest:
  "nearest_double (9007199254740993 + 1 / 10 ^ 13) = Finite (Float 9007199254740994 0)"
  by code_simp

lemma demo_nearest: "nearest_double 316 = Finite (Float 5559130790035456 44)"
  by code_simp

text \<open>
  C1, as the claim states it, fails in three places. The total that is emitted is a
  float: for one line at 90071992547409.93 it is 90071992547409.9375, which is not
  the claimed sum, and not that sum to the penny. The \<open>Decimal\<close> context rounds to 28
  significant digits: the lines \<open>2 ^ 53 + 1\<close> and \<open>10 ^ - 13\<close> add up to a decimal that
  is converted to \<open>2 ^ 53\<close>, where the float nearest to their sum is \<open>2 ^ 53 + 2\<close>. And
  a row without a discount raises in the subtraction: the endpoint answers with status
  500 and no order, where the row set has one order key.
\<close>

theorem aggregate_total_fails:
  "map_sum id (map total') (aggregate False ''Failed to fetch processing orders.'' rows_float)
     = Inr [Finite (Float 5764607523034236 6)]
   \<and> fval (Float 5764607523034236 6)
       - (sum_list (map line_value (non_null_items 1 rows_float)) - discount_value (hd rows_float)) = 3 / 400
   \<and> map_sum id (map total') (aggregate False ''Failed to fetch processing orders.'' rows_wide)
       = Inr [Finite (Float 9007199254740992 0)]
   \<and> nearest_double (sum_list (map line_value (non_null_items 1 rows_wide)) - discount_value (hd rows_wide))
       = Finite (Float 9007199254740994 0)
   \<and> aggregate False ''Failed to fetch processing orders.'' rows_null_discount
       = Inl (HTTPException 500 ''Failed to fetch processing orders.'')
   \<and> first_seen (map SaleID rows_null_discount) = [1]"
proof -
  have af: "accepted rows_float"
    by (simp add: accepted_def loop_ok_def item_rows_ok_def rows_float_def sample_row_def
          truthy_def item_columns_ok_def addons_ok_def order_columns_ok_def first_row_def)
  have "total' (order_of False rows_float 1) = Finite (Float 5764607523034236 6)"
    unfolding order_of_fields float_total [symmetric]
    by (simp add: rows_float_def sample_row_def sub_of_def items_of_def present_def truthy_def
          line_amount_def dec_or_def int_or_def first_row_def)
  then have a: "map_sum id (map total') (aggregate False ''Failed to fetch processing orders.'' rows_float)
      = Inr [Finite (Float 5764607523034236 6)]"
    by (simp add: aggregate_orders [OF af]) (simp add: rows_float_def sample_row_def)
  have b: "fval (Float 5764607523034236 6)
       - (sum_list (map line_value (non_null_items 1 rows_float)) - discount_value (hd rows_float)) = 3 / 400"
    by (simp add: fval_def non_null_items_def rows_float_def sample_row_def line_value_def
          price_value_def quantity_value_def discount_value_def dval_def)
  have aw: "accepted rows_wide"
    by (simp add: accepted_def loop_ok_def item_rows_ok_def rows_wide_def sample_row_def
          truthy_def item_columns_ok_def addons_ok_def order_columns_ok_def first_row_def)
  have "total' (order_of False rows_wide 1) = Finite (Float 9007199254740992 0)"
    unfolding order_of_fields wide_total [symmetric]
    by (simp add: rows_wide_def sample_row_def sub_of_def items_of_def present_def truthy_def
          line_amount_def dec_or_def int_or_def first_row_def)
  then have c: "map_sum id (map total') (aggregate False ''Failed to fetch processing orders.'' rows_wide)
      = Inr [Finite (Float 9007199254740992 0)]"
    by (simp add: aggregate_orders [OF aw]) (simp add: rows_wide_def sample_row_def)
  have "sum_list (map line_value (non_null_items 1 rows_wide)) - discount_value (hd rows_wide)
      = 9007199254740993 + 1 / 10 ^ 13"
    by (simp add: non_null_items_def rows_wide_def sample_row_def line_value_def
          price_value_def quantity_value_def discount_value_def dval_def)
  then have d: "nearest_double (sum_list (map line_value (non_null_items 1 rows_wide)) - discount_value (hd rows_wide))
      = Finite (Float 9007199254740994 0)"
    by (simp only: wide_nearest)
  have "\<not> accepted rows_null_discount"
    by (simp add: accepted_def loop_ok_def item_rows_ok_def rows_null_discount_def sample_row_def
          truthy_def item_columns_ok_def addons_ok_def order_columns_ok_def first_row_def)
  then have e: "aggregate False ''Failed to fetch processing orders.'' rows_null_discount
       = Inl (HTTPException 500 ''Failed to fetch processing orders.'')"
    by (rule aggregate_fails)
  have f: "first_seen (map SaleID rows_null_discount) = [1]"
    by (simp add: rows_null_discount_def sample_row_def)
  from a b c d e f show ?thesis by blast
qed

text \<open>
  C1, amended. Take rows that the aggregator accepts (lemmas \<open>aggregate_orders\<close> and
  \<open>aggregate_fails\<close>), as a join yields them (the rows of an order carry the same
  order-level columns), with no item key 0, whose amounts have at most \<open>s\<close> decimal
  places (\<open>s\<close> at least 1) and stay within the precision of the context. Then every order key of the rows
  is emitted with the total that is the float nearest to the sum of unit price times
  quantity over the rows of that key with a non-null item key, minus the order's
  discount; where that amount is below \<open>2 ^ 45\<close>, the total is within \<open>1 / 512\<close> of it,
  which is less than half a penny. The order carries the item count and the items of
  those rows, and the same total for every reordering of the rows. For a key with no
  such row the sums are empty: no items, count 0, and the float of \<open>0 - totalDiscount\<close>
  (lemma \<open>order_without_items\<close>, which needs no bound).
\<close>

theorem aggregate_total:
  assumes "r \<in> set rows" and "accepted rows" and "joined rows" and "no_zero_key rows"
      and "1 \<le> s" and "places s rows" and "gross_bound s rows (SaleID r)"
      and "mset rows' = mset rows"
  shows "\<exists>os ord os' ord'.
           aggregate with_ref failure_detail rows = Inr os \<and> ord \<in> set os \<and> id' ord = SaleID r
         \<and> total' ord
             = nearest_double (sum_list (map line_value (non_null_items (SaleID r) rows)) - discount_value r)
         \<and> (\<bar>sum_list (map line_value (non_null_items (SaleID r) rows)) - discount_value r\<bar> < 2 ^ 45
              \<longrightarrow> (\<exists>x. total' ord = Finite x
                       \<and> \<bar>fval x - (sum_list (map line_value (non_null_items (SaleID r) rows)) - discount_value r)\<bar>
                           \<le> 1 / 512))
         \<and> items ord = sum_list (map quantity_value (non_null_items (SaleID r) rows))
         \<and> orderItems ord = map item_of (non_null_items (SaleID r) rows)
         \<and> aggregate with_ref failure_detail rows' = Inr os' \<and> ord' \<in> set os' \<and> id' ord' = SaleID r
         \<and> total' ord' = total' ord"
proof -
  let ?k = "SaleID r"
  let ?ord = "order_of with_ref rows ?k" and ?ord' = "order_of with_ref rows' ?k"
  let ?exact = "sum_list (map line_value (non_null_items ?k rows)) - discount_value r"
  from assms(8) have st: "set rows' = set rows" by (rule mset_eq_setD)
  have r': "r \<in> set rows'" using assms(1) st by simp
  have acc': "accepted rows'" by (rule accepted_perm [OF assms(8,3,2)])
  have a: "aggregate with_ref failure_detail rows = Inr (map (order_of with_ref rows) (first_seen (map SaleID rows)))"
    by (rule aggregate_orders [OF assms(2)])
  have a': "aggregate with_ref failure_detail rows' = Inr (map (order_of with_ref rows') (first_seen (map SaleID rows')))"
    by (rule aggregate_orders [OF acc'])
  have m: "?ord \<in> set (map (order_of with_ref rows) (first_seen (map SaleID rows)))"
    using assms(1) by simp
  have m': "?ord' \<in> set (map (order_of with_ref rows') (first_seen (map SaleID rows')))"
    using r' by simp
  have v: "total' ?ord = nearest_double ?exact"
    by (rule order_value [OF assms(1-7)])
  have v': "total' ?ord'
      = nearest_double (sum_list (map line_value (non_null_items ?k rows')) - discount_value r)"
    by (rule order_value [OF r' acc' joined_perm [OF assms(8,3)] no_zero_key_perm [OF assms(8,4)]
          assms(5) places_perm [OF assms(8,6)] gross_bound_perm [OF assms(8,3,1,7)]])
  have "sum_list (map line_value (non_null_items ?k rows')) = sum_list (map line_value (non_null_items ?k rows))"
    by (rule sum_list_map_mset_cong) (rule mset_non_null_items [OF assms(8)])
  with v v' have e: "total' ?ord' = total' ?ord"
    by (simp only:)
  have c: "\<bar>?exact\<bar> < 2 ^ 45 \<longrightarrow> (\<exists>x. total' ?ord = Finite x \<and> \<bar>fval x - ?exact\<bar> \<le> 1 / 512)"
    unfolding v using nearest_double_close [of ?exact] by blast
  have it: "items_of ?k rows = non_null_items ?k rows"
    by (rule items_of_non_null [OF assms(4)])
  have q: "items ?ord = sum_list (map quantity_value (non_null_items ?k rows))"
    by (simp add: order_of_fields int_or_quantity it)
  have f: "id' ?ord = ?k" "id' ?ord' = ?k" "orderItems ?ord = map item_of (non_null_items ?k rows)"
    by (simp_all only: order_of_fields it)
  from a a' m m' v c e q f show ?thesis
    by blast
qed

theorem aggregate_total_witness:
  "sample_row \<in> set rows_demo \<and> accepted rows_demo \<and> joined rows_demo \<and> no_zero_key rows_demo
   \<and> places 2 rows_demo \<and> gross_bound 2 rows_demo 1 \<and> mset (rev rows_demo) = mset rows_demo
   \<and> (\<exists>os ord os' ord'.
         aggregate True ''Failed to fetch all orders.'' rows_demo = Inr os \<and> ord \<in> set os \<and> id' ord = 1
       \<and> total' ord = Finite (Float 5559130790035456 44) \<and> fval (Float 5559130790035456 44) = 316
       \<and> items ord = 3
       \<and> aggregate True ''Failed to fetch all orders.'' (rev rows_demo) = Inr os' \<and> ord' \<in> set os'
       \<and> id' ord' = 1 \<and> total' ord' = Finite (Float 5559130790035456 44))"
proof -
  have h: "sample_row \<in> set rows_demo" "accepted rows_demo" "joined rows_demo" "no_zero_key rows_demo"
      "(1::nat) \<le> 2" "places 2 rows_demo" "gross_bound 2 rows_demo (SaleID sample_row)"
      "mset (rev rows_demo) = mset rows_demo"
    by (simp_all add: rows_demo_def sample_row_def accepted_def loop_ok_def item_rows_ok_def
          truthy_def item_columns_ok_def addons_ok_def order_columns_ok_def first_row_def
          joined_def order_columns_def no_zero_key_def places_def scale_ge_def
          gross_bound_def non_null_items_def line_value_def price_value_def
          quantity_value_def discount_value_def dval_def)
  have v: "SaleID sample_row = 1"
      "sum_list (map line_value (non_null_items 1 rows_demo)) - discount_value sample_row = 316"
      "sum_list (map quantity_value (non_null_items 1 rows_demo)) = 3"
    by (simp_all add: rows_demo_def sample_row_def non_null_items_def line_value_def price_value_def
          quantity_value_def discount_value_def dval_def)
  have fv: "fval (Float 5559130790035456 44) = 316"
    by (simp add: fval_def)
  from aggregate_total [OF h, of True "''Failed to fetch all orders.''"]
  obtain os ord os' ord' where
      "aggregate True ''Failed to fetch all orders.'' rows_demo = Inr os" "ord \<in> set os" "id' ord = 1"
      "total' ord = Finite (Float 5559130790035456 44)" "items ord = 3"
      "aggregate True ''Failed to fetch all orders.'' (rev rows_demo) = Inr os'" "ord' \<in> set os'"
      "id' ord' = 1" "total' ord' = Finite (Float 5559130790035456 44)"
    unfolding v demo_nearest by auto
  with h v(1) fv show ?thesis by (simp only: ) blast
qed

end
